theory Spec2Isabelle
  imports Complex_Main "HOL-Library.Log_Nat" "HOL-Library.Multiset"
begin

section \<open>Data model (src/lib/trade.js, typedefs at lines 6-49)\<close>

text \<open>
  Timestamps are epoch milliseconds (\<open>int\<close>).  A calendar date (a moment object, a
  \<open>YYYYMMDD\<close> number or string) is represented by its day number: the number of
  days since 1970-01-01, a Thursday.  Time zones are fixed offsets from UTC in
  milliseconds; \<open>hostOffset\<close> is the offset of the zone the process runs in (what
  \<open>moment(x)\<close> uses), \<open>tzOffset\<close> the one of \<open>timezoneName\<close> (what
  \<open>moment.tz(x, timezoneName)\<close> uses).
\<close>

record TimePoint =
  hour :: int
  minute :: int
  second :: int
  millisecond :: int

record period =
  pstart :: int
  pend :: int

record TimeInfo =
  tradeDate :: int
  timePeriods :: "period list"
  dayStart :: int
  dayEnd :: int

record ConfigPeriod =
  cp_start :: TimePoint
  cp_end :: TimePoint

record CalendarConfig =
  cfg_before :: ConfigPeriod
  cfg_start :: TimePoint
  cfg_end :: TimePoint
  cfg_after :: ConfigPeriod

datatype error = SourceError string | REPEAT_NAME | TypeError

text \<open>
  The holiday source: called with a range, it fails (\<open>Inl\<close>), returns nothing
  (\<open>Inr None\<close>, a falsy value) or returns a list of intervals.
\<close>

type_synonym holidayFinder = "int \<Rightarrow> int \<Rightarrow> error + period list option"

type_synonym handle = nat

record TradeCalendar =
  oid :: nat
  cname :: string
  config :: CalendarConfig
  tzOffset :: int
  hostOffset :: int
  finder :: holidayFinder
  cal_tradeDate :: "int option"
  cal_preTradeDate :: "int option"
  cal_nextTradeDate :: "int option"
  cal_dayStart :: int
  cal_dayEnd :: int
  systemPeriods :: "period list"
  systemPeriod :: "period option"
  timeInfoHandler :: "handle option"
  startTimeHandler :: "handle option"
  endTimeHandler :: "handle option"
  marketOpenTimeHandler :: "handle option"
  marketCloseTimeHandler :: "handle option"
  timeHandler :: "handle option"

text \<open>
  \<open>cal_tradeDate = None\<close> is the constructor's \<open>this.tradeDate = 0\<close> (no trade date
  yet); the tests \<open>calendar.tradeDate > 0\<close> of the manager read \<open>cal_tradeDate \<noteq> None\<close>.
  An undefined handler field is \<open>None\<close>.
\<close>

section \<open>Holiday normalisation: findHolidays (src/lib/trade.js:221-249)\<close>

text \<open>
  The body of the \<open>forEach\<close>: \<open>rs\<close> is the result so far and \<open>pre\<close> is its last
  element (the object pushed last, mutated in place by \<open>pre.end = holiday.end\<close>).
\<close>

fun merge_step :: "period list \<Rightarrow> period \<Rightarrow> period list" where
  "merge_step [] holiday = [\<lparr>pstart = pstart holiday, pend = pend holiday\<rparr>]"
| "merge_step rs holiday =
     (if pstart holiday > pend (last rs)
      then rs @ [\<lparr>pstart = pstart holiday, pend = pend holiday\<rparr>]
      else butlast rs @ [(last rs)\<lparr>pend := pend holiday\<rparr>])"

text \<open>\<open>holidays.sort((a, b) => a.start - b.start)\<close> is a stable sort on \<open>start\<close>.\<close>

definition normalize :: "period list \<Rightarrow> period list" where
  "normalize holidays = foldl merge_step [] (sort_key pstart holidays)"

definition findHolidays :: "holidayFinder \<Rightarrow> int \<Rightarrow> int \<Rightarrow> error + period list" where
  "findHolidays f s e =
     (case f s e of
        Inl err \<Rightarrow> Inl err
      | Inr None \<Rightarrow> Inr []
      | Inr (Some holidays) \<Rightarrow> Inr (normalize holidays))"

section \<open>Session resolution: timeInfo (src/lib/trade.js:149-212)\<close>

definition DAY :: int where
  "DAY = 24 * 60 * 60 * 1000"

definition point_ms :: "TimePoint \<Rightarrow> int" where
  "point_ms p = ((hour p * 60 + minute p) * 60 + second p) * 1000 + millisecond p"

text \<open>\<open>date.days()\<close>: the weekday, 0 for Sunday to 6 for Saturday.\<close>

definition days :: "int \<Rightarrow> int" where
  "days d = (d + 4) mod 7"

text \<open>\<open>_point2timestamp\<close> of timeInfo builds the moment in the host's zone.\<close>

definition local_point2timestamp :: "TradeCalendar \<Rightarrow> int \<Rightarrow> TimePoint \<Rightarrow> int" where
  "local_point2timestamp c d p = d * DAY + point_ms p - hostOffset c"

text \<open>\<open>_stamp\<close>: the host's wall clock at an instant, read again in the calendar's zone.\<close>

definition stamp :: "TradeCalendar \<Rightarrow> int \<Rightarrow> int" where
  "stamp c t = t + hostOffset c - tzOffset c"

text \<open>The \<open>holidays.forEach\<close> of lines 181-194.\<close>

definition holiday_periods :: "TradeCalendar \<Rightarrow> int \<Rightarrow> int \<Rightarrow> period \<Rightarrow> period list" where
  "holiday_periods c s e holiday =
     (if s < pstart holiday then [\<lparr>pstart = stamp c s, pend = stamp c (pstart holiday)\<rparr>] else [])
     @ (if e > pend holiday then [\<lparr>pstart = stamp c (pend holiday), pend = stamp c e\<rparr>] else [])"

definition session_periods :: "TradeCalendar \<Rightarrow> int \<Rightarrow> int \<Rightarrow> period list \<Rightarrow> period list" where
  "session_periods c s e holidays = concat (map (holiday_periods c s e) holidays)"

definition day_info :: "TradeCalendar \<Rightarrow> int \<Rightarrow> period list \<Rightarrow> TimeInfo" where
  "day_info c d ps =
     \<lparr>tradeDate = d, timePeriods = ps,
      dayStart = d * DAY - tzOffset c, dayEnd = d * DAY + (DAY - 1) - tzOffset c\<rparr>"

text \<open>
  The \<open>for (date = ...;; date.add(direction, 'day'))\<close> loop has no bound: \<open>None\<close> is
  the run that never returns.  \<open>timePeriods\<close> is still empty whenever the loop
  continues, so each day starts from the empty list.
\<close>

partial_function (option) timeInfo_loop ::
  "TradeCalendar \<Rightarrow> int \<Rightarrow> int \<Rightarrow> (error + TimeInfo) option" where
  "timeInfo_loop c direction d =
     (if days d > 0 \<and> days d < 6 then
        (let s = local_point2timestamp c d (cfg_start (config c));
             e = local_point2timestamp c d (cfg_end (config c))
         in case findHolidays (finder c) s e of
              Inl err \<Rightarrow> Some (Inl err)
            | Inr holidays \<Rightarrow>
                if holidays \<noteq> [] then
                  (if session_periods c s e holidays = []
                   then timeInfo_loop c direction (d + direction)
                   else Some (Inr (day_info c d (session_periods c s e holidays))))
                else Some (Inr (day_info c d [\<lparr>pstart = stamp c s, pend = stamp c e\<rparr>])))
      else timeInfo_loop c direction (d + direction))"

text \<open>\<open>direction = direction < 0 ? -1 : 1\<close>; an omitted direction is \<open>None\<close>.\<close>

definition norm_direction :: "int option \<Rightarrow> int" where
  "norm_direction direction = (case direction of Some x \<Rightarrow> (if x < 0 then - 1 else 1) | None \<Rightarrow> 1)"

definition timeInfo :: "TradeCalendar \<Rightarrow> int \<Rightarrow> int option \<Rightarrow> (error + TimeInfo) option" where
  "timeInfo c date direction = timeInfo_loop c (norm_direction direction) date"

section \<open>Calendar accessors (src/lib/trade.js:102-114, 251-336, 425-427)\<close>

text \<open>
  \<open>time && time.valueOf && time.valueOf() || time || Date.now()\<close> on a number: a
  non-zero \<open>time\<close> is returned, a falsy one (0, or an omitted argument) gives the
  clock.  \<open>now\<close> is the value \<open>Date.now()\<close> returns.
\<close>

definition TradeCalendar_timestamp :: "int \<Rightarrow> int \<Rightarrow> int" where
  "TradeCalendar_timestamp now time = (if time \<noteq> 0 then time else now)"

definition TradeCalendar_realStamp :: "int \<Rightarrow> int \<Rightarrow> int" where
  "TradeCalendar_realStamp now time = (if time \<noteq> 0 then time else now)"

definition today :: "TradeCalendar \<Rightarrow> int \<Rightarrow> int" where
  "today c now = (TradeCalendar_timestamp now 0 + tzOffset c) div DAY"

definition realTimePeriod :: "int \<Rightarrow> period \<Rightarrow> period" where
  "realTimePeriod now p =
     \<lparr>pstart = TradeCalendar_realStamp now (pstart p), pend = TradeCalendar_realStamp now (pend p)\<rparr>"

text \<open>\<open>timeInfo(date || this.today(), direction)\<close>: a falsy \<open>date\<close> is \<open>None\<close>.\<close>

definition realTimeInfo ::
  "TradeCalendar \<Rightarrow> int \<Rightarrow> int option \<Rightarrow> int option \<Rightarrow> (error + TimeInfo) option" where
  "realTimeInfo c now date direction =
     (case timeInfo c (case date of Some d \<Rightarrow> d | None \<Rightarrow> today c now) direction of
        None \<Rightarrow> None
      | Some (Inl err) \<Rightarrow> Some (Inl err)
      | Some (Inr ti) \<Rightarrow>
          Some (Inr \<lparr>tradeDate = tradeDate ti,
                     timePeriods = map (realTimePeriod now) (timePeriods ti),
                     dayStart = TradeCalendar_realStamp now (dayStart ti),
                     dayEnd = TradeCalendar_realStamp now (dayEnd ti)\<rparr>))"

definition point2timestamp :: "TradeCalendar \<Rightarrow> int \<Rightarrow> TimePoint \<Rightarrow> int" where
  "point2timestamp c d p = d * DAY + point_ms p - tzOffset c"

definition afterMarketEnd :: "TradeCalendar \<Rightarrow> int \<Rightarrow> int" where
  "afterMarketEnd c d = point2timestamp c d (cp_end (cfg_after (config c)))"

definition realAfterMarketEnd :: "TradeCalendar \<Rightarrow> int \<Rightarrow> int \<Rightarrow> int" where
  "realAfterMarketEnd c now d = TradeCalendar_realStamp now (afterMarketEnd c d)"

section \<open>Virtual time (src/lib/manager.js:289-302)\<close>

text \<open>
  JavaScript numbers are IEEE 754 binary64 values, and every arithmetic operation returns
  its exact result rounded to the nearest such value.  An \<open>arithmetic\<close> is that rounding:
  it takes the exact result of one operation, a rational, to the number the operation
  returns, or to \<open>None\<close> when the operation returns no finite number (an infinity or NaN).
\<close>

type_synonym arithmetic = "rat \<Rightarrow> rat option"

text \<open>
  \<open>ilog2 x\<close> is the binary exponent of a non-zero \<open>x\<close>: the \<open>e\<close> with
  \<open>2\<^sup>e \<le> \<bar>x\<bar> < 2\<^sup>e\<^sup>+\<^sup>1\<close>, found from the bit lengths of numerator and denominator.
\<close>

definition ilog2 :: "rat \<Rightarrow> int" where
  "ilog2 x = (let (p, q) = quotient_of \<bar>x\<bar>; k = bitlen p - bitlen q
              in if \<bar>x\<bar> < 2 powi k then k - 1 else k)"

text \<open>Rounding to the nearest integer, a tie going to the even one.\<close>

definition rne :: "rat \<Rightarrow> int" where
  "rne m = (let n = \<lfloor>m\<rfloor>; f = m - of_int n
            in if f < 1 / 2 then n else if 1 / 2 < f then n + 1 else if even n then n else n + 1)"

text \<open>
  binary64 in the default rounding mode (to nearest, ties to even): 53 significant bits,
  so a number of exponent \<open>e\<close> is rounded to a multiple of \<open>2\<^sup>e\<^sup>-\<^sup>5\<^sup>2\<close>; below the least
  normal exponent -1022 the spacing stays \<open>2\<^sup>-\<^sup>1\<^sup>0\<^sup>7\<^sup>4\<close> (gradual underflow); a result
  that rounds to \<open>2\<^sup>1\<^sup>0\<^sup>2\<^sup>4\<close> or beyond is an infinity.
\<close>

definition binary64 :: arithmetic where
  "binary64 x =
     (if x = 0 then Some 0
      else (let q = 2 powi (max (ilog2 x) (- 1022) - 52); y = q * of_int (rne (x / q))
            in if \<bar>y\<bar> < 2 powi 1024 then Some y else None))"

text \<open>The arithmetic of the specification's "exact arithmetic": no rounding.\<close>

definition exact :: arithmetic where
  "exact x = Some x"

text \<open>
  The three fields the conversions read; \<open>timeRatio\<close> is the stored quotient
  \<open>_oneDay / 86400000\<close>.  \<open>time = time || Date.now()\<close> replaces a falsy argument by the
  clock.  Each conversion is three operations, each rounded by the arithmetic \<open>fl\<close>.  A
  zero \<open>_timeRatio\<close> makes the division of \<open>timestamp\<close> return an infinity or NaN; no
  later operation turns those into a finite number again, so \<open>None\<close> is passed on.
\<close>

record VirtualCalendar =
  realBase :: rat
  virtualBase :: rat
  timeRatio :: rat

definition VirtualCalendar_timestamp ::
  "arithmetic \<Rightarrow> VirtualCalendar \<Rightarrow> rat \<Rightarrow> rat \<Rightarrow> rat option" where
  "VirtualCalendar_timestamp fl c now time0 =
     (let time = (if time0 \<noteq> 0 then time0 else now)
      in if timeRatio c = 0 then None
         else Option.bind (fl (time - realBase c)) (\<lambda>a.
              Option.bind (fl (a / timeRatio c)) (\<lambda>b. fl (b + virtualBase c))))"

definition VirtualCalendar_realStamp ::
  "arithmetic \<Rightarrow> VirtualCalendar \<Rightarrow> rat \<Rightarrow> rat \<Rightarrow> rat option" where
  "VirtualCalendar_realStamp fl c now time0 =
     (let time = (if time0 \<noteq> 0 then time0 else now)
      in Option.bind (fl (time - virtualBase c)) (\<lambda>a.
         Option.bind (fl (a * timeRatio c)) (\<lambda>b. fl (b + realBase c))))"

section \<open>The calendar manager (src/unnamed/part_001)\<close>

text \<open>
  A timer callback is a closure of the source; it is kept as data and run by \<open>fire\<close>.
  \<open>SystemTimeStart\<close> and \<open>SystemTimeEnd\<close> are the two \<open>realTimeoutAt\<close> listeners of
  changeSystemPeriod with their target instant, \<open>Retry\<close> is the retry of setTimeInfo
  with its arguments.
\<close>

datatype callback =
    SystemTimeStart string int
  | SystemTimeEnd string int
  | MarketOpen string
  | MarketClose string
  | AfterMarketClose string
  | Retry string "int option" bool

record timer =
  callback :: callback
  delay :: int

datatype event =
    TradeDateChange string int "int option" "int option"
  | SystemPeriodChange string period "period list"
  | SystemTimeStartEv string "period option"
  | SystemTimeEndEv string "period option"
  | MarketOpenEv string "int option"
  | MarketCloseEv string "int option"
  | AfterMarketCloseEv string "int option"

text \<open>
  The manager with its environment: the registered calendars (the objects themselves,
  which carry the per-calendar state), the armed timers by handle, the events emitted
  so far and the real clock.
\<close>

record world =
  calendars :: "string \<Rightarrow> TradeCalendar option"
  timers :: "handle \<Rightarrow> timer option"
  nextHandle :: handle
  emitted :: "event list"
  clock :: int

datatype outcome = Returned world | Threw error world

definition setTimeout :: "world \<Rightarrow> callback \<Rightarrow> int \<Rightarrow> handle \<times> world" where
  "setTimeout w cb ms =
     (nextHandle w,
      w\<lparr>timers := (timers w)(nextHandle w \<mapsto> \<lparr>callback = cb, delay = ms\<rparr>),
        nextHandle := Suc (nextHandle w)\<rparr>)"

definition clearTimeout :: "world \<Rightarrow> handle \<Rightarrow> world" where
  "clearTimeout w h = w\<lparr>timers := (timers w)(h := None)\<rparr>"

text \<open>\<open>if (handler) clearTimeout(handler)\<close>\<close>

definition clear_if_set :: "world \<Rightarrow> handle option \<Rightarrow> world" where
  "clear_if_set w handler = (case handler of None \<Rightarrow> w | Some h \<Rightarrow> clearTimeout w h)"

definition emit :: "world \<Rightarrow> event \<Rightarrow> world" where
  "emit w ev = w\<lparr>emitted := emitted w @ [ev]\<rparr>"

definition modify :: "world \<Rightarrow> string \<Rightarrow> (TradeCalendar \<Rightarrow> TradeCalendar) \<Rightarrow> world" where
  "modify w name f = w\<lparr>calendars := (calendars w)(name := map_option f (calendars w name))\<rparr>"

text \<open>src/lib/trade.js:531-547; both compute the delay from the clock.\<close>

definition realTimeoutAt :: "world \<Rightarrow> callback \<Rightarrow> int \<Rightarrow> handle \<times> world" where
  "realTimeoutAt w listener time = setTimeout w listener (time - clock w)"

definition setTimeoutAt :: "world \<Rightarrow> callback \<Rightarrow> int \<Rightarrow> handle \<times> world" where
  "setTimeoutAt w code timestamp = setTimeout w code (timestamp - clock w)"

text \<open>changeSystemPeriod (part_001:144-167)\<close>

definition changeSystemPeriod :: "world \<Rightarrow> string \<Rightarrow> world" where
  "changeSystemPeriod w name =
     (case calendars w name of
        None \<Rightarrow> w
      | Some calendar \<Rightarrow>
          (case systemPeriods calendar of
             [] \<Rightarrow> w
           | p # rest \<Rightarrow>
               (let w1 = emit w (SystemPeriodChange name p rest);
                    w2 = clear_if_set w1 (startTimeHandler calendar);
                    w3 = clear_if_set w2 (endTimeHandler calendar);
                    (h1, w4) = realTimeoutAt w3 (SystemTimeStart name (pstart p)) (pstart p);
                    (h2, w5) = realTimeoutAt w4 (SystemTimeEnd name (pend p)) (pend p)
                in modify w5 name (\<lambda>c. c\<lparr>systemPeriod := Some p, systemPeriods := rest,
                                          startTimeHandler := Some h1, endTimeHandler := Some h2\<rparr>))))"

text \<open>
  setTimeInfo, lines 88-104: the trade date changes.  An error of a lookup leaves the
  assignments made before it in place.
\<close>

definition changeTradeDate ::
  "world \<Rightarrow> string \<Rightarrow> TradeCalendar \<Rightarrow> TimeInfo \<Rightarrow> (error \<times> world + world) option" where
  "changeTradeDate w name calendar info =
     (if cal_tradeDate calendar \<noteq> Some (tradeDate info) then
        (case (if cal_tradeDate calendar \<noteq> None then Some (Inr (cal_tradeDate calendar))
               else (case realTimeInfo calendar (clock w) (Some (tradeDate info - 1)) (Some (- 1)) of
                       None \<Rightarrow> None
                     | Some (Inl err) \<Rightarrow> Some (Inl err)
                     | Some (Inr ti) \<Rightarrow> Some (Inr (Some (tradeDate ti))))) of
           None \<Rightarrow> None
         | Some (Inl err) \<Rightarrow> Some (Inl (err, w))
         | Some (Inr pre) \<Rightarrow>
             (let w1 = modify w name (\<lambda>c. c\<lparr>cal_preTradeDate := pre\<rparr>)
              in case realTimeInfo calendar (clock w) (Some (tradeDate info + 1)) (Some 1) of
                   None \<Rightarrow> None
                 | Some (Inl err) \<Rightarrow> Some (Inl (err, w1))
                 | Some (Inr nd) \<Rightarrow>
                     Some (Inr (emit
                       (modify w1 name (\<lambda>c. c\<lparr>cal_nextTradeDate := Some (tradeDate nd),
                                               cal_tradeDate := Some (tradeDate info),
                                               cal_dayStart := dayStart info,
                                               cal_dayEnd := dayEnd info\<rparr>))
                       (TradeDateChange name (tradeDate info) pre (Some (tradeDate nd)))))))
      else Some (Inr w))"

text \<open>
  Lines 82-85: \<open>first && first.start\<close> and \<open>last && last.end\<close>; \<open>None\<close> when there
  is no period.  \<open>truthy\<close> is the test of \<open>marketOpen && marketClose\<close> on them.
\<close>

definition marketOpen_of :: "TimeInfo \<Rightarrow> int option" where
  "marketOpen_of info = (case timePeriods info of [] \<Rightarrow> None | first # _ \<Rightarrow> Some (pstart first))"

definition marketClose_of :: "TimeInfo \<Rightarrow> int option" where
  "marketClose_of info =
     (case timePeriods info of [] \<Rightarrow> None | _ # _ \<Rightarrow> Some (pend (last (timePeriods info))))"

definition truthy :: "int option \<Rightarrow> bool" where
  "truthy v = (case v of None \<Rightarrow> False | Some x \<Rightarrow> x \<noteq> 0)"

text \<open>Lines 110-121: the market-open and market-close timers.\<close>

definition armMarketTimers :: "world \<Rightarrow> string \<Rightarrow> int \<Rightarrow> int option \<Rightarrow> int option \<Rightarrow> world" where
  "armMarketTimers w name now marketOpen marketClose =
     (case (marketOpen, marketClose) of
        (Some mo, Some mc) \<Rightarrow>
          if truthy marketOpen \<and> truthy marketClose then
            (let w1 = (if now < mc
                       then (let (h, w') = setTimeoutAt w (MarketOpen name)
                                             (TradeCalendar_timestamp (clock w) mo)
                             in modify w' name (\<lambda>c. c\<lparr>marketOpenTimeHandler := Some h\<rparr>))
                       else w);
                 (h2, w2) = setTimeoutAt w1 (MarketClose name) (TradeCalendar_timestamp (clock w1) mc)
             in modify w2 name (\<lambda>c. c\<lparr>marketCloseTimeHandler := Some h2\<rparr>))
          else w
      | _ \<Rightarrow> w)"

text \<open>Lines 122-126: the terminal timer at the after-market-close boundary.\<close>

definition armAfterMarketClose :: "world \<Rightarrow> string \<Rightarrow> TradeCalendar \<Rightarrow> TimeInfo \<Rightarrow> world" where
  "armAfterMarketClose w name calendar info =
     (let (h, w') = setTimeoutAt w (AfterMarketClose name) (afterMarketEnd calendar (tradeDate info))
      in modify w' name (\<lambda>c. c\<lparr>timeInfoHandler := Some h\<rparr>))"

text \<open>Lines 105-126, after the trade date is settled.\<close>

definition armTimers :: "world \<Rightarrow> string \<Rightarrow> TradeCalendar \<Rightarrow> TimeInfo \<Rightarrow> int \<Rightarrow> world" where
  "armTimers w name calendar info now =
     (let w1 = modify w name (\<lambda>c. c\<lparr>systemPeriods := timePeriods info\<rparr>);
          w2 = changeSystemPeriod w1 name;
          w3 = clear_if_set w2 (case calendars w2 name of None \<Rightarrow> None | Some c \<Rightarrow> timeInfoHandler c);
          w4 = armMarketTimers w3 name now (marketOpen_of info) (marketClose_of info)
      in armAfterMarketClose w4 name calendar info)"

text \<open>Lines 127-141: the \<open>catch\<close> block.\<close>

definition catch_error :: "world \<Rightarrow> string \<Rightarrow> int option \<Rightarrow> bool \<Rightarrow> error \<Rightarrow> outcome" where
  "catch_error w name start retry err =
     (if retry then
        (let w1 = (case calendars w name of
                     None \<Rightarrow> w
                   | Some c \<Rightarrow>
                       (case timeInfoHandler c of
                          None \<Rightarrow> w
                        | Some h \<Rightarrow> modify (clearTimeout w h) name (\<lambda>c. c\<lparr>timeInfoHandler := None\<rparr>)));
             (h, w2) = setTimeout w1 (Retry name start retry) (10 * 1000)
         in Returned (modify w2 name (\<lambda>c. c\<lparr>timeHandler := Some h\<rparr>)))
      else Threw err w)"

text \<open>
  setTimeInfo (part_001:70-142).  An unknown name fails on \<open>calendar.currentTime()\<close>
  before the \<open>try\<close>.  \<open>Date.now()\<close> is read from the world's clock.  The catch-up
  call of line 80 is a tail call: what it throws is thrown again by the \<open>catch\<close> of
  the caller, since it throws only when \<open>retry\<close> is falsy.
\<close>

partial_function (option) setTimeInfo ::
  "world \<Rightarrow> string \<Rightarrow> int option \<Rightarrow> bool \<Rightarrow> outcome option" where
  "setTimeInfo w name start retry =
     (case calendars w name of
        None \<Rightarrow> Some (Threw TypeError w)
      | Some calendar \<Rightarrow>
          (case realTimeInfo calendar (clock w) start None of
             None \<Rightarrow> None
           | Some (Inl err) \<Rightarrow> Some (catch_error w name start retry err)
           | Some (Inr info) \<Rightarrow>
               if clock w > realAfterMarketEnd calendar (clock w) (tradeDate info)
               then setTimeInfo w name (Some (tradeDate info + 1)) retry
               else (case changeTradeDate w name calendar info of
                       None \<Rightarrow> None
                     | Some (Inl (err, w1)) \<Rightarrow> Some (catch_error w1 name start retry err)
                     | Some (Inr w1) \<Rightarrow>
                         Some (Returned (armTimers w1 name calendar info (clock w))))))"

text \<open>
  start (part_001:30-47).  \<open>Unnamed calendar\<close> is the call with the calendar alone;
  two calendars are the same object when their \<open>oid\<close> agrees.
\<close>

datatype start_arg = Named string "TradeCalendar option" | Unnamed TradeCalendar

definition start :: "world \<Rightarrow> start_arg \<Rightarrow> outcome option" where
  "start w arg =
     (let (name, calendar) = (case arg of Named n c \<Rightarrow> (n, c) | Unnamed c \<Rightarrow> (cname c, Some c))
      in case (calendars w name, calendar) of
           (Some c0, Some c) \<Rightarrow>
             if oid c0 \<noteq> oid c then Some (Threw REPEAT_NAME w)
             else setTimeInfo w name None False
         | (None, Some c) \<Rightarrow> setTimeInfo (w\<lparr>calendars := (calendars w)(name \<mapsto> c)\<rparr>) name None False
         | (_, None) \<Rightarrow> setTimeInfo w name None False)"

text \<open>stop (part_001:49-62)\<close>

definition stop :: "world \<Rightarrow> string \<Rightarrow> world" where
  "stop w name =
     (case calendars w name of
        None \<Rightarrow> w
      | Some calendar \<Rightarrow>
          clear_if_set
            (clear_if_set (clear_if_set w (timeInfoHandler calendar)) (startTimeHandler calendar))
            (endTimeHandler calendar))"

text \<open>
  A timer fires: it leaves the table and its callback runs.  The \<open>realTimeoutAt\<close>
  listeners check the clock first and arm a new timer, whose handle nobody keeps,
  when they run early.  The after-market-close callback (lines 122-126) calls
  setTimeInfo with two arguments, so \<open>retry\<close> is undefined there.
\<close>

definition fire :: "world \<Rightarrow> handle \<Rightarrow> outcome option" where
  "fire w h =
     (case timers w h of
        None \<Rightarrow> Some (Returned w)
      | Some t \<Rightarrow>
          (let w0 = clearTimeout w h
           in case callback t of
                SystemTimeStart name time \<Rightarrow>
                  Some (Returned
                    (if clock w0 \<ge> time
                     then emit w0 (SystemTimeStartEv name
                            (case calendars w0 name of None \<Rightarrow> None | Some c \<Rightarrow> systemPeriod c))
                     else snd (realTimeoutAt w0 (SystemTimeStart name time) time)))
              | SystemTimeEnd name time \<Rightarrow>
                  Some (Returned
                    (if clock w0 \<ge> time
                     then changeSystemPeriod
                            (emit w0 (SystemTimeEndEv name
                               (case calendars w0 name of None \<Rightarrow> None | Some c \<Rightarrow> systemPeriod c)))
                            name
                     else snd (realTimeoutAt w0 (SystemTimeEnd name time) time)))
              | MarketOpen name \<Rightarrow>
                  Some (Returned (emit w0 (MarketOpenEv name
                    (case calendars w0 name of None \<Rightarrow> None | Some c \<Rightarrow> cal_tradeDate c))))
              | MarketClose name \<Rightarrow>
                  Some (Returned (emit w0 (MarketCloseEv name
                    (case calendars w0 name of None \<Rightarrow> None | Some c \<Rightarrow> cal_tradeDate c))))
              | AfterMarketClose name \<Rightarrow>
                  (case calendars w0 name of
                     None \<Rightarrow> Some (Threw TypeError w0)
                   | Some c \<Rightarrow>
                       (case cal_tradeDate c of
                          None \<Rightarrow> None
                        | Some d \<Rightarrow>
                            setTimeInfo (emit w0 (AfterMarketCloseEv name (cal_tradeDate c)))
                              name (Some (d + 1)) False))
              | Retry name anchor retry \<Rightarrow> setTimeInfo w0 name anchor retry))"

section \<open>Properties of interval sequences\<close>

text \<open>
  A sequence of closed intervals is disjoint and ascending when every interval starts
  no earlier than the ones before it and strictly after they end.
\<close>

definition disjoint_ascending :: "period list \<Rightarrow> bool" where
  "disjoint_ascending ps = sorted_wrt (\<lambda>a b. pstart a \<le> pstart b \<and> pend a < pstart b) ps"

text \<open>
  Trading periods \<open>[start, end)\<close> are chronological and non-overlapping when every
  period starts no earlier than the ones before it start and end.
\<close>

definition chronological :: "period list \<Rightarrow> bool" where
  "chronological ps = sorted_wrt (\<lambda>a b. pstart a \<le> pstart b \<and> pend a \<le> pstart b) ps"

definition covered :: "period list \<Rightarrow> int \<Rightarrow> bool" where
  "covered ps t = list_ex (\<lambda>p. pstart p \<le> t \<and> t \<le> pend p) ps"

text \<open>
  The normalisation in the specification's words: sort by start, then walk the sorted
  intervals keeping a current merged interval; an interval whose start is at or before
  the current one's end is merged into it (the current interval takes that interval's
  end), any other interval closes the current one and becomes the current one.
\<close>

fun merge_into :: "period \<Rightarrow> period list \<Rightarrow> period list" where
  "merge_into cur [] = [cur]"
| "merge_into cur (h # hs) =
     (if pstart h \<le> pend cur then merge_into (cur\<lparr>pend := pend h\<rparr>) hs
      else cur # merge_into h hs)"

definition sort_and_merge :: "period list \<Rightarrow> period list" where
  "sort_and_merge hs = (case sort_key pstart hs of [] \<Rightarrow> [] | h # rest \<Rightarrow> merge_into h rest)"

text \<open>
  The bound on the error of a round trip through \<open>timestamp\<close> and \<open>realStamp\<close> in
  binary64: \<open>2\<^sup>-\<^sup>4\<^sup>7\<close> is 64 unit roundoffs, \<open>2\<^sup>-\<^sup>1\<^sup>0\<^sup>6\<^sup>9\<close> is 64 times the largest error
  of a rounding in the subnormal range.
\<close>

definition round_trip_epsilon :: "VirtualCalendar \<Rightarrow> rat \<Rightarrow> rat" where
  "round_trip_epsilon c t =
     2 powi (- 47) * (\<bar>t - realBase c\<bar> + \<bar>timeRatio c * virtualBase c\<bar> + \<bar>realBase c\<bar>)
     + 2 powi (- 1069) * (1 + \<bar>timeRatio c\<bar>)"

text \<open>
  Calendars whose bases are at most \<open>2\<^sup>6\<^sup>2\<close> in magnitude and whose ratio lies between
  \<open>2\<^sup>-\<^sup>6\<^sup>2\<close> and \<open>2\<^sup>6\<^sup>2\<close>; every millisecond timestamp of a JavaScript Date is below
  \<open>2\<^sup>5\<^sup>3\<close>.
\<close>

definition moderate :: "VirtualCalendar \<Rightarrow> bool" where
  "moderate c \<longleftrightarrow> \<bar>realBase c\<bar> \<le> 2 ^ 62 \<and> \<bar>virtualBase c\<bar> \<le> 2 ^ 62
     \<and> 2 powi (- 62) \<le> \<bar>timeRatio c\<bar> \<and> \<bar>timeRatio c\<bar> \<le> 2 ^ 62"

section \<open>Concrete calendars and managers\<close>

text \<open>The configuration of the repository's tests (src/unnamed/part_000, lines 6-47).\<close>

definition test_config :: CalendarConfig where
  "test_config =
     \<lparr>cfg_before = \<lparr>cp_start = \<lparr>hour = 8, minute = 5, second = 0, millisecond = 0\<rparr>,
                     cp_end = \<lparr>hour = 9, minute = 25, second = 0, millisecond = 0\<rparr>\<rparr>,
      cfg_start = \<lparr>hour = 9, minute = 30, second = 0, millisecond = 0\<rparr>,
      cfg_end = \<lparr>hour = 16, minute = 0, second = 0, millisecond = 0\<rparr>,
      cfg_after = \<lparr>cp_start = \<lparr>hour = 16, minute = 5, second = 0, millisecond = 0\<rparr>,
                    cp_end = \<lparr>hour = 17, minute = 25, second = 0, millisecond = 0\<rparr>\<rparr>\<rparr>"

text \<open>The constructor (src/lib/trade.js:58-74) with the fields the manager adds later.\<close>

definition new_calendar ::
  "nat \<Rightarrow> string \<Rightarrow> CalendarConfig \<Rightarrow> int \<Rightarrow> int \<Rightarrow> holidayFinder \<Rightarrow> TradeCalendar" where
  "new_calendar i n cfg tz host f =
     \<lparr>oid = i, cname = n, config = cfg, tzOffset = tz, hostOffset = host, finder = f,
      cal_tradeDate = None, cal_preTradeDate = None, cal_nextTradeDate = None,
      cal_dayStart = 0, cal_dayEnd = 0, systemPeriods = [], systemPeriod = None,
      timeInfoHandler = None, startTimeHandler = None, endTimeHandler = None,
      marketOpenTimeHandler = None, marketCloseTimeHandler = None, timeHandler = None\<rparr>"

text \<open>src/lib/trade.js:31-33\<close>

definition emptyHolidayFinder :: holidayFinder where
  "emptyHolidayFinder s e = Inr (Some [])"

text \<open>A source with two breaks in every session, one and three hours after its start.\<close>

definition two_breaks :: holidayFinder where
  "two_breaks s e = Inr (Some [\<lparr>pstart = s + 3600000, pend = s + 7200000\<rparr>,
                               \<lparr>pstart = s + 10800000, pend = s + 14400000\<rparr>])"

definition source_down :: holidayFinder where
  "source_down s e = Inl (SourceError ''down'')"

definition unsorted_source :: holidayFinder where
  "unsorted_source s e =
     Inr (Some [\<lparr>pstart = 30, pend = 40\<rparr>, \<lparr>pstart = 0, pend = 10\<rparr>, \<lparr>pstart = 5, pend = 20\<rparr>])"

definition sorted_source :: holidayFinder where
  "sorted_source s e = Inr (Some [\<lparr>pstart = 0, pend = 20\<rparr>, \<lparr>pstart = 30, pend = 40\<rparr>])"

definition nested_source :: holidayFinder where
  "nested_source s e = Inr (Some [\<lparr>pstart = 0, pend = 100\<rparr>, \<lparr>pstart = 10, pend = 20\<rparr>])"

text \<open>
  The calendar \<open>cn\<close> of the tests: Asia/Shanghai (UTC+8), on a host running in UTC.
  Day 17379 is Tuesday 2017-08-01.
\<close>

definition cn :: TradeCalendar where
  "cn = new_calendar 1 ''trade'' test_config 28800000 0 emptyHolidayFinder"

text \<open>A virtual calendar whose day lasts twelve hours, anchored at 2017-01-01.\<close>

definition half_day :: VirtualCalendar where
  "half_day = \<lparr>realBase = 1483200000000, virtualBase = 1483200000000, timeRatio = 1 / 2\<rparr>"

text \<open>A virtual calendar whose day lasts three days, anchored at 2017-01-01.\<close>

definition three_days :: VirtualCalendar where
  "three_days = \<lparr>realBase = 1483200000000, virtualBase = 1483200000000, timeRatio = 3\<rparr>"

text \<open>The manager's constructor (part_001:18-28) at a given clock value.\<close>

definition new_manager :: "int \<Rightarrow> world" where
  "new_manager now =
     \<lparr>calendars = Map.empty, timers = Map.empty, nextHandle = 0, emitted = [], clock = now\<rparr>"

text \<open>The world an outcome leaves behind.\<close>

definition returned_world :: "outcome option \<Rightarrow> world" where
  "returned_world r =
     (case r of Some (Returned w) \<Rightarrow> w | Some (Threw err w) \<Rightarrow> w | None \<Rightarrow> new_manager 0)"

text \<open>\<open>calendar.reload({}, holidayFinder)\<close> (src/lib/trade.js:81-96) on a registered calendar.\<close>

definition reload_finder :: "world \<Rightarrow> string \<Rightarrow> holidayFinder \<Rightarrow> world" where
  "reload_finder w name f = modify w name (\<lambda>c. c\<lparr>finder := f\<rparr>)"

text \<open>The error an outcome threw, if any.\<close>

definition thrown :: "outcome option \<Rightarrow> error option" where
  "thrown r = (case r of Some (Threw err w) \<Rightarrow> Some err | _ \<Rightarrow> None)"

text \<open>A fresh manager with \<open>cn\<close> registered, as start leaves it before its first pass.\<close>

definition registered :: "int \<Rightarrow> world" where
  "registered now = (new_manager now)\<lparr>calendars := (calendars (new_manager now))(''trade'' \<mapsto> cn)\<rparr>"

text \<open>The manager after \<open>start(cn)\<close> at 06:26:40 local time of 2017-08-01, before the open.\<close>

definition started :: world where
  "started = returned_world (start (new_manager 1501540000000) (Unnamed cn))"

text \<open>
  The same manager at the after-market-close boundary of that day (17:25), after the
  holiday source has been replaced by one that fails.
\<close>

definition outage :: world where
  "outage = reload_finder (started\<lparr>clock := 1501579500000\<rparr>) ''trade'' source_down"

section \<open>Holiday normalisation\<close>

lemma merge_step_nonempty:
  "rs \<noteq> [] \<Longrightarrow> merge_step rs h =
     (if pstart h > pend (last rs) then rs @ [h] else butlast rs @ [(last rs)\<lparr>pend := pend h\<rparr>])"
  by (cases rs) auto

lemma merge_step_snoc:
  "merge_step (ys @ [y]) h =
     (if pstart h > pend y then ys @ [y, h] else ys @ [y\<lparr>pend := pend h\<rparr>])"
  by (simp add: merge_step_nonempty)

lemma starts_merge_step: "pstart ` set (merge_step rs h) \<subseteq> insert (pstart h) (pstart ` set rs)"
proof (cases rs rule: rev_cases)
  case Nil then show ?thesis by simp
next
  case (snoc ys y)
  then show ?thesis by (auto simp: merge_step_snoc)
qed

lemma disjoint_ascending_merge_step:
  assumes "disjoint_ascending rs" and "\<forall>a \<in> set rs. pstart a \<le> pstart h"
  shows "disjoint_ascending (merge_step rs h)"
proof (cases rs rule: rev_cases)
  case Nil then show ?thesis by (simp add: disjoint_ascending_def)
next
  case (snoc ys y)
  with assms show ?thesis
    by (auto simp: merge_step_snoc disjoint_ascending_def sorted_wrt_append)
qed

lemma foldl_merge_step_invariant:
  "sorted (map pstart xs) \<Longrightarrow>
   disjoint_ascending (foldl merge_step [] xs) \<and> pstart ` set (foldl merge_step [] xs) \<subseteq> pstart ` set xs"
proof (induction xs rule: rev_induct)
  case Nil
  then show ?case by (simp add: disjoint_ascending_def)
next
  case (snoc x xs)
  let ?rs = "foldl merge_step [] xs"
  from snoc.prems have sx: "sorted (map pstart xs)" and le: "\<forall>a \<in> set xs. pstart a \<le> pstart x"
    by (auto simp: sorted_append)
  from snoc.IH [OF sx] have sep: "disjoint_ascending ?rs" and sub: "pstart ` set ?rs \<subseteq> pstart ` set xs"
    by auto
  have le': "\<forall>a \<in> set ?rs. pstart a \<le> pstart x"
    using sub le by auto
  have "disjoint_ascending (merge_step ?rs x)"
    by (rule disjoint_ascending_merge_step [OF sep le'])
  moreover have "pstart ` set (merge_step ?rs x) \<subseteq> pstart ` set (xs @ [x])"
    using starts_merge_step [of ?rs x] sub by auto
  ultimately show ?case by simp
qed

lemma disjoint_ascending_normalize: "disjoint_ascending (normalize hs)"
  unfolding normalize_def
  using foldl_merge_step_invariant [of "sort_key pstart hs"] by simp

lemma foldl_merge_step_fixed: "disjoint_ascending xs \<Longrightarrow> foldl merge_step [] xs = xs"
proof (induction xs rule: rev_induct)
  case Nil
  then show ?case by simp
next
  case (snoc x xs)
  from snoc.prems have sx: "disjoint_ascending xs" and lt: "\<forall>a \<in> set xs. pend a < pstart x"
    by (auto simp: disjoint_ascending_def sorted_wrt_append)
  have IH: "foldl merge_step [] xs = xs" by (rule snoc.IH [OF sx])
  show ?case
  proof (cases xs rule: rev_cases)
    case Nil then show ?thesis by simp
  next
    case (snoc ys y)
    then have "pend y < pstart x" using lt by simp
    then show ?thesis using snoc IH by (simp add: merge_step_snoc)
  qed
qed

lemma disjoint_ascending_sorted: "disjoint_ascending xs \<Longrightarrow> sorted (map pstart xs)"
  by (induction xs) (auto simp: disjoint_ascending_def)

lemma normalize_fixed: "disjoint_ascending xs \<Longrightarrow> normalize xs = xs"
  unfolding normalize_def
  by (simp add: sort_key_id_if_sorted disjoint_ascending_sorted foldl_merge_step_fixed)

lemma disjoint_ascending_Nil: "disjoint_ascending []"
  by (simp add: disjoint_ascending_def)

lemma foldl_merge_step_merge_into:
  "foldl merge_step (ds @ [cur]) xs = ds @ merge_into cur xs"
proof (induction xs arbitrary: ds cur)
  case Nil
  then show ?case by simp
next
  case (Cons h xs)
  show ?case
  proof (cases "pstart h \<le> pend cur")
    case True
    then show ?thesis using Cons.IH [of ds "cur\<lparr>pend := pend h\<rparr>"]
      by (simp add: merge_step_snoc)
  next
    case False
    then show ?thesis using Cons.IH [of "ds @ [cur]" h]
      by (simp add: merge_step_snoc)
  qed
qed

lemma normalize_sort_and_merge: "normalize hs = sort_and_merge hs"
proof (cases "sort_key pstart hs")
  case Nil
  then show ?thesis by (simp add: normalize_def sort_and_merge_def)
next
  case (Cons h rest)
  have "merge_step [] h = [h]" by (cases h) simp
  then have "foldl merge_step [] (h # rest) = foldl merge_step ([] @ [h]) rest"
    by (simp del: merge_step.simps)
  also have "\<dots> = merge_into h rest" by (simp only: foldl_merge_step_merge_into) simp
  finally show ?thesis by (simp add: normalize_def sort_and_merge_def Cons)
qed

lemma merge_step_not_Nil: "merge_step rs h \<noteq> []"
  by (cases rs) auto

lemma ends_merge_step: "pend ` set (merge_step rs h) \<subseteq> insert (pend h) (pend ` set rs)"
proof (cases rs rule: rev_cases)
  case Nil then show ?thesis by simp
next
  case (snoc ys y)
  then show ?thesis by (auto simp: merge_step_snoc)
qed

lemma covered_merge_step:
  assumes sound: "\<forall>t. covered rs t \<longrightarrow> covered xs t"
    and complete: "\<forall>h \<in> set xs. covered rs (pstart h)"
    and starts: "pstart ` set rs \<subseteq> pstart ` set xs"
    and le: "\<forall>a \<in> set xs. pstart a \<le> pstart x"
    and wf: "pstart x \<le> pend x"
  shows "(\<forall>t. covered (merge_step rs x) t \<longrightarrow> covered (xs @ [x]) t)
       \<and> (\<forall>h \<in> set (xs @ [x]). covered (merge_step rs x) (pstart h))"
proof (cases rs rule: rev_cases)
  case Nil
  with complete have "xs = []" by (cases xs) (auto simp: covered_def)
  with Nil wf show ?thesis by (simp add: covered_def)
next
  case (snoc ys l)
  have l: "pstart l \<le> pstart x" using starts le snoc by auto
  show ?thesis
  proof (cases "pstart x > pend l")
    case True
    with snoc sound complete wf show ?thesis
      by (auto simp: merge_step_snoc covered_def list_ex_iff)
  next
    case False
    have s: "covered (ys @ [l\<lparr>pend := pend x\<rparr>]) t \<longrightarrow> covered (xs @ [x]) t" for t
    proof
      assume c: "covered (ys @ [l\<lparr>pend := pend x\<rparr>]) t"
      show "covered (xs @ [x]) t"
      proof (cases "covered (ys @ [l]) t")
        case True
        with sound snoc show ?thesis by (auto simp: covered_def list_ex_iff)
      next
        case nc: False
        with c have "pstart l \<le> t" "t \<le> pend x" "\<not> t \<le> pend l"
          by (auto simp: covered_def list_ex_iff)
        with False have "pstart x \<le> t" by linarith
        with \<open>t \<le> pend x\<close> show ?thesis by (auto simp: covered_def list_ex_iff)
      qed
    qed
    have c: "covered (ys @ [l\<lparr>pend := pend x\<rparr>]) (pstart h)" if "h \<in> set (xs @ [x])" for h
    proof (cases "h = x")
      case True
      with l wf show ?thesis by (auto simp: covered_def list_ex_iff)
    next
      case hx: False
      with that have h: "h \<in> set xs" by simp
      with complete snoc have "covered (ys @ [l]) (pstart h)" by simp
      moreover have "pstart h \<le> pend x" using le h wf by force
      ultimately show ?thesis by (auto simp: covered_def list_ex_iff)
    qed
    from s c False snoc show ?thesis by (simp add: merge_step_snoc)
  qed
qed

lemma foldl_merge_step_covers:
  assumes "sorted (map pstart xs)" and "\<forall>h \<in> set xs. pstart h \<le> pend h"
  shows "(\<forall>t. covered (foldl merge_step [] xs) t \<longrightarrow> covered xs t)
       \<and> (\<forall>h \<in> set xs. covered (foldl merge_step [] xs) (pstart h))"
  using assms
proof (induction xs rule: rev_induct)
  case Nil
  then show ?case by (simp add: covered_def)
next
  case (snoc x xs)
  from snoc.prems have sx: "sorted (map pstart xs)" and le: "\<forall>a \<in> set xs. pstart a \<le> pstart x"
    and wfs: "\<forall>h \<in> set xs. pstart h \<le> pend h" and wf: "pstart x \<le> pend x"
    by (auto simp: sorted_append)
  from snoc.IH [OF sx wfs] foldl_merge_step_invariant [OF sx]
  show ?case using covered_merge_step [OF _ _ _ le wf, of "foldl merge_step [] xs"] by simp
qed

lemma foldl_merge_step_ends: "pend ` set (foldl merge_step [] xs) \<subseteq> pend ` set xs"
proof (induction xs rule: rev_induct)
  case Nil
  then show ?case by simp
next
  case (snoc x xs)
  with ends_merge_step [of "foldl merge_step [] xs" x]
  have "pend ` set (merge_step (foldl merge_step [] xs) x) \<subseteq> insert (pend x) (pend ` set xs)"
    by blast
  then show ?case by simp
qed

lemma normalize_covers:
  assumes "\<forall>h \<in> set hs. pstart h \<le> pend h"
  shows "(\<forall>t. covered (normalize hs) t \<longrightarrow> covered hs t)
       \<and> (\<forall>h \<in> set hs. covered (normalize hs) (pstart h))"
proof -
  have cov: "covered (sort_key pstart hs) t = covered hs t" for t
    by (simp add: covered_def list_ex_iff)
  from foldl_merge_step_covers [of "sort_key pstart hs"] assms
  show ?thesis by (simp add: normalize_def cov)
qed

lemma normalize_bounds:
  "pstart ` set (normalize hs) \<subseteq> pstart ` set hs \<and> pend ` set (normalize hs) \<subseteq> pend ` set hs"
  using foldl_merge_step_invariant [of "sort_key pstart hs"] foldl_merge_step_ends [of "sort_key pstart hs"]
  by (simp add: normalize_def)

lemma normalize_Nil_iff: "normalize hs = [] \<longleftrightarrow> hs = []"
proof (cases "sort_key pstart hs" rule: rev_cases)
  case Nil
  then have "hs = []" by (metis length_sort list.size(3) length_0_conv)
  then show ?thesis by (simp add: normalize_def)
next
  case (snoc ys y)
  then have "hs \<noteq> []" by auto
  then show ?thesis by (simp add: normalize_def snoc merge_step_not_Nil)
qed

lemma filter_distinct_key:
  assumes "distinct (map f xs)" and "k \<in> set xs"
  shows "filter (\<lambda>x. f k = f x) xs = [k]"
  using assms
proof (induction xs)
  case Nil
  then show ?case by simp
next
  case (Cons a xs)
  show ?case
  proof (cases "k = a")
    case True
    have "filter (\<lambda>x. f a = f x) xs = []"
      using Cons.prems(1) by (auto simp: filter_empty_conv)
    with True show ?thesis by simp
  next
    case False
    with Cons.prems have k: "k \<in> set xs" and d: "distinct (map f xs)" and na: "f a \<notin> f ` set xs"
      by auto
    from k na have "f k \<noteq> f a" by (metis imageI)
    with Cons.IH [OF d k] show ?thesis by simp
  qed
qed

lemma sort_key_permutation:
  assumes "mset hs = mset hs'" and "distinct (map f hs)"
  shows "sort_key f hs = sort_key f hs'"
proof (rule properties_for_sort_key)
  show "mset (sort_key f hs') = mset hs" using assms(1) by simp
  show "sorted (map f (sort_key f hs'))" by simp
  fix k assume "k \<in> set (sort_key f hs')"
  then have k': "k \<in> set hs'" by simp
  then have k: "k \<in> set hs" using assms(1) by (metis set_mset_mset)
  have "mset (map f hs') = mset (map f hs)" using assms(1) by simp
  then have d': "distinct (map f hs')" using assms(2) by (metis distinct_count_atmost_1 set_mset_mset)
  have d'': "distinct (map f (sort_key f hs'))"
    using d' by (metis distinct_map distinct_sort set_sort inj_on_cong)
  show "filter (\<lambda>x. f k = f x) (sort_key f hs') = filter (\<lambda>x. f k = f x) hs"
    using filter_distinct_key [OF assms(2) k] filter_distinct_key [OF d'', of k] k' by simp
qed


text \<open>
  C8: findHolidays sorts the source's intervals by start and merges every interval that
  starts at or before the end of the current merged one: its result is the one the
  specification's sort-and-merge gives, a disjoint sequence ascending by start.  Every
  start and every end of the result is a start, respectively an end, of an input
  interval, and the result is empty only for an empty input.  When every input interval
  has its start at or before its end, every input start is covered by the result and
  every instant the result covers is covered by the input.  On a sequence that is
  already sorted and disjoint it returns that sequence, so normalising twice is
  normalising once; and the order in which the source lists intervals with distinct
  starts does not change the result.
\<close>

theorem findHolidays_normalizes:
  "(findHolidays f s e = Inr rs \<longrightarrow> disjoint_ascending rs)
   \<and> (f s e = Inr (Some hs) \<longrightarrow> findHolidays f s e = Inr (sort_and_merge hs))
   \<and> (f s e = Inr (Some hs) \<longrightarrow> findHolidays f s e = Inr rs \<longrightarrow>
        pstart ` set rs \<subseteq> pstart ` set hs \<and> pend ` set rs \<subseteq> pend ` set hs
        \<and> (rs = [] \<longleftrightarrow> hs = []))
   \<and> (f s e = Inr (Some hs) \<longrightarrow> (\<forall>h \<in> set hs. pstart h \<le> pend h) \<longrightarrow>
        findHolidays f s e = Inr rs \<longrightarrow>
        (\<forall>h \<in> set hs. covered rs (pstart h)) \<and> (\<forall>t. covered rs t \<longrightarrow> covered hs t))
   \<and> (f s e = Inr (Some hs) \<longrightarrow> disjoint_ascending hs \<longrightarrow> findHolidays f s e = Inr hs)
   \<and> normalize (normalize hs) = normalize hs
   \<and> (mset hs' = mset hs \<longrightarrow> distinct (map pstart hs) \<longrightarrow> normalize hs' = normalize hs)"
proof -
  have shape: "disjoint_ascending rs" if "findHolidays f s e = Inr rs"
    using that
    by (auto simp: findHolidays_def disjoint_ascending_normalize disjoint_ascending_Nil
        split: sum.splits option.splits)
  have refines: "findHolidays f s e = Inr (sort_and_merge hs)" if "f s e = Inr (Some hs)"
    using that by (simp add: findHolidays_def normalize_sort_and_merge)
  have run: "rs = normalize hs" if "f s e = Inr (Some hs)" "findHolidays f s e = Inr rs"
    using that by (simp add: findHolidays_def)
  have bounds: "pstart ` set rs \<subseteq> pstart ` set hs \<and> pend ` set rs \<subseteq> pend ` set hs
      \<and> (rs = [] \<longleftrightarrow> hs = [])"
    if "f s e = Inr (Some hs)" "findHolidays f s e = Inr rs"
    using normalize_bounds [of hs] normalize_Nil_iff [of hs] by (simp add: run [OF that])
  have covers: "(\<forall>h \<in> set hs. covered rs (pstart h)) \<and> (\<forall>t. covered rs t \<longrightarrow> covered hs t)"
    if "f s e = Inr (Some hs)" "\<forall>h \<in> set hs. pstart h \<le> pend h" "findHolidays f s e = Inr rs"
    using normalize_covers [OF that(2)] by (simp add: run [OF that(1,3)])
  have fixed: "findHolidays f s e = Inr hs" if "f s e = Inr (Some hs)" "disjoint_ascending hs"
    using that by (simp add: findHolidays_def normalize_fixed)
  have twice: "normalize (normalize hs) = normalize hs"
    by (rule normalize_fixed [OF disjoint_ascending_normalize])
  have order: "normalize hs' = normalize hs" if "mset hs' = mset hs" "distinct (map pstart hs)"
    using sort_key_permutation [of hs hs' pstart] that by (simp add: normalize_def)
  from shape refines bounds covers fixed twice order show ?thesis by blast
qed

theorem findHolidays_normalizes_witness:
  "findHolidays unsorted_source 0 100 = Inr [\<lparr>pstart = 0, pend = 20\<rparr>, \<lparr>pstart = 30, pend = 40\<rparr>]
   \<and> disjoint_ascending [\<lparr>pstart = 0, pend = 20\<rparr>, \<lparr>pstart = 30, pend = 40\<rparr>]
   \<and> sort_and_merge [\<lparr>pstart = 30, pend = 40\<rparr>, \<lparr>pstart = 0, pend = 10\<rparr>, \<lparr>pstart = 5, pend = 20\<rparr>]
       = [\<lparr>pstart = 0, pend = 20\<rparr>, \<lparr>pstart = 30, pend = 40\<rparr>]
   \<and> pstart ` set [\<lparr>pstart = 0, pend = 20\<rparr>, \<lparr>pstart = 30, pend = 40\<rparr>]
       \<subseteq> pstart ` set [\<lparr>pstart = 30, pend = 40\<rparr>, \<lparr>pstart = 0, pend = 10\<rparr>, \<lparr>pstart = 5, pend = 20\<rparr>]
   \<and> pend ` set [\<lparr>pstart = 0, pend = 20\<rparr>, \<lparr>pstart = 30, pend = 40\<rparr>]
       \<subseteq> pend ` set [\<lparr>pstart = 30, pend = 40\<rparr>, \<lparr>pstart = 0, pend = 10\<rparr>, \<lparr>pstart = 5, pend = 20\<rparr>]
   \<and> covered [\<lparr>pstart = 0, pend = 20\<rparr>, \<lparr>pstart = 30, pend = 40\<rparr>] 5
   \<and> covered [\<lparr>pstart = 0, pend = 20\<rparr>, \<lparr>pstart = 30, pend = 40\<rparr>] 15
   \<and> covered [\<lparr>pstart = 30, pend = 40\<rparr>, \<lparr>pstart = 0, pend = 10\<rparr>, \<lparr>pstart = 5, pend = 20\<rparr>] 15
   \<and> findHolidays sorted_source 0 100 = Inr [\<lparr>pstart = 0, pend = 20\<rparr>, \<lparr>pstart = 30, pend = 40\<rparr>]
   \<and> normalize [\<lparr>pstart = 5, pend = 20\<rparr>, \<lparr>pstart = 30, pend = 40\<rparr>, \<lparr>pstart = 0, pend = 10\<rparr>]
       = normalize [\<lparr>pstart = 30, pend = 40\<rparr>, \<lparr>pstart = 0, pend = 10\<rparr>, \<lparr>pstart = 5, pend = 20\<rparr>]"
proof -
  let ?hs = "[\<lparr>pstart = 30, pend = 40\<rparr>, \<lparr>pstart = 0, pend = 10\<rparr>, \<lparr>pstart = 5, pend = 20\<rparr>]"
  let ?hs' = "[\<lparr>pstart = 5, pend = 20\<rparr>, \<lparr>pstart = 30, pend = 40\<rparr>, \<lparr>pstart = 0, pend = 10\<rparr>]"
  let ?rs = "[\<lparr>pstart = 0, pend = 20\<rparr>, \<lparr>pstart = 30, pend = 40\<rparr>]"
  have src: "unsorted_source 0 100 = Inr (Some ?hs)" by (simp add: unsorted_source_def)
  have run: "findHolidays unsorted_source 0 100 = Inr ?rs"
    by (simp add: findHolidays_def unsorted_source_def normalize_def)
  have wf: "\<forall>h \<in> set ?hs. pstart h \<le> pend h" by simp
  have mem: "\<lparr>pstart = 5, pend = 20\<rparr> \<in> set ?hs" by simp
  have perm: "mset ?hs' = mset ?hs" by simp
  have dist: "distinct (map pstart ?hs)" by simp
  have src': "sorted_source 0 100 = Inr (Some ?rs)" by (simp add: sorted_source_def)
  note unsorted = findHolidays_normalizes [of unsorted_source 0 100 ?rs ?hs ?hs']
  from unsorted run have da: "disjoint_ascending ?rs" by blast
  from unsorted src have "findHolidays unsorted_source 0 100 = Inr (sort_and_merge ?hs)" by blast
  with run have sm: "sort_and_merge ?hs = ?rs" by simp
  from unsorted src run
  have bs: "pstart ` set ?rs \<subseteq> pstart ` set ?hs" and be: "pend ` set ?rs \<subseteq> pend ` set ?hs"
    by blast+
  from unsorted src wf run have "\<forall>h \<in> set ?hs. covered ?rs (pstart h)" by blast
  with mem have c5: "covered ?rs 5" by force
  have r15: "covered ?rs 15" by (simp add: covered_def)
  from unsorted src wf run r15 have c15: "covered ?hs 15" by blast
  from unsorted perm dist have ord: "normalize ?hs' = normalize ?hs" by blast
  from findHolidays_normalizes [of sorted_source 0 100 ?rs ?rs] src' da
  have fx: "findHolidays sorted_source 0 100 = Inr ?rs" by blast
  from run da sm bs be c5 r15 c15 fx ord show ?thesis by blast
qed

text \<open>
  C7: when the source returns an interval nested strictly inside the one before it,
  findHolidays gives the merged interval the nested interval's smaller end: the instant
  at which the outer interval ends is covered by the input and not by the result.
\<close>

theorem nested_holiday_shrinks_merged_end:
  assumes "pstart a < pstart b" and "pstart b \<le> pend b" and "pend b < pend a"
    and "f s e = Inr (Some [a, b]) \<or> f s e = Inr (Some [b, a])"
  shows "findHolidays f s e = Inr [\<lparr>pstart = pstart a, pend = pend b\<rparr>]
       \<and> (covered [a, b] (pend a) \<and> \<not> covered [\<lparr>pstart = pstart a, pend = pend b\<rparr>] (pend a))"
  using assms by (auto simp: findHolidays_def normalize_def covered_def)

theorem nested_holiday_shrinks_merged_end_witness:
  "findHolidays nested_source 0 100 = Inr [\<lparr>pstart = 0, pend = 20\<rparr>]
   \<and> covered [\<lparr>pstart = 0, pend = 100\<rparr>, \<lparr>pstart = 10, pend = 20\<rparr>] 100
   \<and> \<not> covered [\<lparr>pstart = 0, pend = 20\<rparr>] 100"
  using nested_holiday_shrinks_merged_end
    [of "\<lparr>pstart = 0, pend = 100\<rparr>" "\<lparr>pstart = 10, pend = 20\<rparr>" nested_source 0 100]
  by (simp add: nested_source_def)

section \<open>Binary64 rounding\<close>

lemma bitlen_bounds_rat:
  assumes "0 < p"
  shows "2 powi (bitlen p - 1) \<le> (of_int p :: rat)" and "(of_int p :: rat) < 2 powi (bitlen p)"
proof -
  from assms have b1: "1 \<le> bitlen p" by (auto simp: bitlen_alt_def)
  from bitlen_bounds [OF assms] have lo: "2 ^ nat (bitlen p - 1) \<le> p" and hi: "p < 2 ^ nat (bitlen p)"
    by auto
  have "(2 :: rat) powi (bitlen p - 1) = 2 ^ nat (bitlen p - 1)"
    using b1 by (simp add: power_int_def)
  also have "\<dots> = of_int (2 ^ nat (bitlen p - 1))" by simp
  also have "\<dots> \<le> of_int p" using lo by (simp only: of_int_le_iff)
  finally show "2 powi (bitlen p - 1) \<le> (of_int p :: rat)" .
  have "(of_int p :: rat) < of_int (2 ^ nat (bitlen p))" using hi by (simp only: of_int_less_iff)
  also have "\<dots> = 2 ^ nat (bitlen p)" by simp
  also have "\<dots> = 2 powi (bitlen p)" using b1 by (simp add: power_int_def)
  finally show "(of_int p :: rat) < 2 powi (bitlen p)" .
qed

lemma ilog2_bounds:
  assumes "x \<noteq> 0"
  shows "2 powi (ilog2 x) \<le> \<bar>x\<bar>" and "\<bar>x\<bar> < 2 powi (ilog2 x + 1)"
proof -
  obtain p q where pq: "quotient_of \<bar>x\<bar> = (p, q)" by (cases "quotient_of \<bar>x\<bar>")
  then have q: "0 < q" and x: "\<bar>x\<bar> = of_int p / of_int q"
    by (auto dest: quotient_of_denom_pos quotient_of_div)
  have "0 < \<bar>x\<bar>" using assms by simp
  then have p: "0 < p" using q x by (simp add: zero_less_divide_iff)
  define k where "k = bitlen p - bitlen q"
  note bp = bitlen_bounds_rat [OF p] and bq = bitlen_bounds_rat [OF q]
  have Q: "(0 :: rat) < of_int q" using q by simp
  have low: "2 powi (k - 1) \<le> \<bar>x\<bar>"
  proof -
    have "(2 :: rat) powi (k - 1) = 2 powi (bitlen p - 1) / 2 powi (bitlen q)"
      by (simp add: k_def power_int_diff)
    also have "\<dots> \<le> of_int p / of_int q"
      using bp(1) bq(2) Q p by (intro frac_le) auto
    finally show ?thesis by (simp add: x)
  qed
  have high: "\<bar>x\<bar> < 2 powi (k + 1)"
  proof -
    have pos: "(0 :: rat) < 2 powi (bitlen q - 1)" by simp
    have "of_int p / of_int q < (2 :: rat) powi (bitlen p) / 2 powi (bitlen q - 1)"
      using bp(2) bq(1) Q pos p by (intro frac_less) auto
    also have "\<dots> = 2 powi (k + 1)"
      by (simp add: k_def power_int_diff power_int_add)
    finally show ?thesis by (simp add: x)
  qed
  have il: "ilog2 x = (if \<bar>x\<bar> < 2 powi k then k - 1 else k)"
    by (simp add: ilog2_def pq k_def Let_def)
  show "2 powi (ilog2 x) \<le> \<bar>x\<bar>" using low by (auto simp: il)
  show "\<bar>x\<bar> < 2 powi (ilog2 x + 1)" using high by (auto simp: il)
qed

lemma ilog2_unique:
  assumes "x \<noteq> 0" and "2 powi e \<le> \<bar>x\<bar>" and "\<bar>x\<bar> < 2 powi (e + 1)"
  shows "ilog2 x = e"
proof -
  note b = ilog2_bounds [OF assms(1)]
  have "(2 :: rat) powi (ilog2 x) < 2 powi (e + 1)" using b(1) assms(3) by simp
  then have 1: "ilog2 x < e + 1"
    using power_int_increasing [of "e + 1" "ilog2 x" "2 :: rat"] by (cases "ilog2 x < e + 1") auto
  have "(2 :: rat) powi e < 2 powi (ilog2 x + 1)" using b(2) assms(2) by simp
  then have 2: "e < ilog2 x + 1"
    using power_int_increasing [of "ilog2 x + 1" e "2 :: rat"] by (cases "e < ilog2 x + 1") auto
  from 1 2 show ?thesis by simp
qed

lemma rne_error: "\<bar>of_int (rne m) - m\<bar> \<le> 1 / 2"
proof -
  define n where "n = \<lfloor>m\<rfloor>"
  have "of_int n \<le> m" and "m < of_int n + 1" by (simp_all add: n_def) linarith
  then show ?thesis
    by (auto simp: rne_def Let_def n_def [symmetric] abs_le_iff)
qed

lemma binary64_zero: "binary64 0 = Some 0"
  by (simp add: binary64_def)

lemma binary64_error:
  assumes "binary64 x = Some y"
  shows "\<bar>y - x\<bar> \<le> 2 powi (- 53) * \<bar>x\<bar> + 2 powi (- 1075)"
proof (cases "x = 0")
  case True
  with assms show ?thesis by (simp add: binary64_def)
next
  case False
  define e where "e = max (ilog2 x) (- 1022)"
  define q :: rat where "q = 2 powi (e - 52)"
  have q: "0 < q" by (simp add: q_def)
  from assms False have y: "y = q * of_int (rne (x / q))"
    by (simp add: binary64_def Let_def q_def e_def split: if_splits)
  have "y - x = q * (of_int (rne (x / q)) - x / q)"
    using q by (simp add: y algebra_simps)
  then have "\<bar>y - x\<bar> = q * \<bar>of_int (rne (x / q)) - x / q\<bar>"
    using q by (simp add: abs_mult)
  also have "\<dots> \<le> q * (1 / 2)"
    using q rne_error [of "x / q"] by (intro mult_left_mono) auto
  also have "\<dots> = 2 powi (e - 53)"
    by (simp add: q_def power_int_diff)
  finally have half: "\<bar>y - x\<bar> \<le> 2 powi (e - 53)" .
  show ?thesis
  proof (cases "ilog2 x \<ge> - 1022")
    case True
    then have "e = ilog2 x" by (simp add: e_def)
    then have "(2 :: rat) powi (e - 53) = 2 powi (- 53) * 2 powi (ilog2 x)"
      by (simp add: power_int_diff power_int_minus field_simps)
    also have "\<dots> \<le> 2 powi (- 53) * \<bar>x\<bar>"
      using ilog2_bounds(1) [OF False] by (intro mult_left_mono) auto
    finally have "\<bar>y - x\<bar> \<le> 2 powi (- 53) * \<bar>x\<bar>" using half by simp
    moreover have "(0 :: rat) \<le> 2 powi (- 1075)" by simp
    ultimately show ?thesis by linarith
  next
    case False
    then have "e = - 1022" by (simp add: e_def)
    then have "\<bar>y - x\<bar> \<le> 2 powi (- 1075)" using half by simp
    moreover have "(0 :: rat) \<le> 2 powi (- 53) * \<bar>x\<bar>" by simp
    ultimately show ?thesis by linarith
  qed
qed

lemma rne_nearest:
  assumes "\<bar>m - of_int n\<bar> < 1 / 2"
  shows "rne m = n"
proof -
  define k where "k = \<lfloor>m\<rfloor>"
  have k: "of_int k \<le> m" "m < of_int k + 1" by (simp_all add: k_def) linarith
  from assms have n: "of_int n - 1 / 2 < m" "m < of_int n + 1 / 2" by linarith+
  have "of_int n < (of_int k :: rat) + 3 / 2" using n(1) k(2) by linarith
  then have "of_int n < (of_int (k + 2) :: rat)" by simp
  then have nk: "n < k + 2" by (simp only: of_int_less_iff)
  have "of_int k < (of_int n :: rat) + 1 / 2" using n(2) k(1) by linarith
  then have "of_int k < (of_int (n + 1) :: rat)" by simp
  then have kn: "k < n + 1" by (simp only: of_int_less_iff)
  from nk kn have "n = k \<or> n = k + 1" by linarith
  then show ?thesis
  proof
    assume "n = k"
    with n(2) have "m - of_int k < 1 / 2" by simp
    then show ?thesis by (simp add: rne_def Let_def k_def [symmetric] \<open>n = k\<close>)
  next
    assume nk1: "n = k + 1"
    with n(1) have "1 / 2 < m - of_int k" by simp
    then show ?thesis by (simp add: rne_def Let_def k_def [symmetric] nk1)
  qed
qed

lemma binary64_value:
  assumes "x \<noteq> 0" and "2 powi e \<le> \<bar>x\<bar>" and "\<bar>x\<bar> < 2 powi (e + 1)"
    and "- 1022 \<le> e" and "e < 1023"
    and "\<bar>x / 2 powi (e - 52) - of_int n\<bar> < 1 / 2" and "\<bar>of_int n :: rat\<bar> \<le> 2 powi 53"
  shows "binary64 x = Some (2 powi (e - 52) * of_int n)"
proof -
  have il: "ilog2 x = e" by (rule ilog2_unique [OF assms(1-3)])
  have "\<bar>2 powi (e - 52) * (of_int n :: rat)\<bar> = 2 powi (e - 52) * \<bar>of_int n\<bar>"
    by (simp add: abs_mult)
  also have "\<dots> \<le> 2 powi (e - 52) * 2 powi 53"
    using assms(7) by (intro mult_left_mono) auto
  also have "\<dots> = 2 powi (e - 52 + 53)" by (rule power_int_add [symmetric]) simp
  also have "\<dots> = 2 powi (e + 1)" by (simp add: add.commute)
  also have "\<dots> < 2 powi 1024"
    using assms(5) by (intro power_int_strict_increasing) auto
  finally show ?thesis
    using assms(1,4) rne_nearest [OF assms(6)] by (simp add: binary64_def il Let_def max_def)
qed

lemma power_int_less_imp_less:
  assumes "(2 :: rat) powi a < 2 powi b"
  shows "a < b"
  using assms power_int_increasing [of b a "2 :: rat"] by (cases "a < b") auto

lemma binary64_returns:
  assumes "\<bar>x\<bar> \<le> M" and "M \<le> 2 powi 1022"
  shows "\<exists>y. binary64 x = Some y \<and> \<bar>y\<bar> \<le> 2 * M + 1"
proof (cases "x = 0")
  case True
  with assms(1) show ?thesis by (simp add: binary64_zero)
next
  case False
  define e where "e = max (ilog2 x) (- 1022)"
  define q :: rat where "q = 2 powi (e - 52)"
  define y where "y = q * of_int (rne (x / q))"
  have q: "0 < q" by (simp add: q_def)
  have "(2 :: rat) powi (ilog2 x) < 2 powi 1023"
  proof -
    have "(2 :: rat) powi (ilog2 x) \<le> 2 powi 1022"
      using ilog2_bounds(1) [OF False] assms by linarith
    also have "\<dots> < 2 powi 1023" by (intro power_int_strict_increasing) auto
    finally show ?thesis .
  qed
  then have "ilog2 x < 1023" by (rule power_int_less_imp_less)
  then have e: "e \<le> 1022" by (simp add: e_def)
  have "y - x = q * (of_int (rne (x / q)) - x / q)"
    using q by (simp add: y_def algebra_simps)
  then have "\<bar>y - x\<bar> = q * \<bar>of_int (rne (x / q)) - x / q\<bar>"
    using q by (simp add: abs_mult)
  also have "\<dots> \<le> q * 1"
    using q rne_error [of "x / q"] by (intro mult_left_mono) auto
  finally have "\<bar>y - x\<bar> \<le> q" by simp
  moreover have "q \<le> 2 powi 1022"
    unfolding q_def by (rule power_int_increasing) (use e in auto)
  ultimately have "\<bar>y - x\<bar> \<le> 2 powi 1022" by (rule order_trans)
  with assms have "\<bar>y\<bar> \<le> 2 powi 1022 + 2 powi 1022" by linarith
  also have "\<dots> = 2 powi 1023" by (simp add: power_int_add [of 2 1022 1, simplified])
  also have "\<dots> < 2 powi 1024" by (intro power_int_strict_increasing) auto
  finally have fin: "\<bar>y\<bar> < 2 powi 1024" .
  have val: "binary64 x = Some y"
    using False fin by (simp add: binary64_def Let_def e_def [symmetric] q_def [symmetric] y_def [symmetric])
  have "\<bar>y - x\<bar> \<le> 2 powi (- 53) * \<bar>x\<bar> + 2 powi (- 1075)" by (rule binary64_error [OF val])
  moreover have "2 powi (- 53) * \<bar>x\<bar> \<le> 1 * \<bar>x\<bar>"
    by (intro mult_right_mono) (simp_all add: power_int_minus inverse_le_1_iff)
  moreover have "(2 :: rat) powi (- 1075) \<le> 1"
    by (simp add: power_int_minus inverse_le_1_iff)
  ultimately have "\<bar>y\<bar> \<le> 2 * \<bar>x\<bar> + 1" by linarith
  with assms(1) val show ?thesis by auto
qed

lemma binary64_of_int:
  assumes "\<bar>k\<bar> < 2 ^ 53"
  shows "binary64 (of_int k) = Some (of_int k)"
proof (cases "k = 0")
  case True
  then show ?thesis by (simp add: binary64_zero)
next
  case False
  define x :: rat where "x = of_int k"
  define e where "e = ilog2 x"
  have x0: "x \<noteq> 0" using False by (simp add: x_def)
  note b = ilog2_bounds [OF x0, folded e_def]
  have ax: "\<bar>x\<bar> = of_int \<bar>k\<bar>" by (simp add: x_def)
  have "1 \<le> \<bar>k\<bar>" using False by simp
  then have "(of_int 1 :: rat) \<le> of_int \<bar>k\<bar>" by (simp only: of_int_le_iff)
  then have one: "1 \<le> \<bar>x\<bar>" by (simp add: ax)
  have "(of_int \<bar>k\<bar> :: rat) < of_int (2 ^ 53)" using assms by (simp only: of_int_less_iff)
  then have top: "\<bar>x\<bar> < 2 powi 53" by (simp add: ax)
  have "(2 :: rat) powi 0 < 2 powi (e + 1)" using one b(2) by simp
  then have e0: "0 \<le> e" using power_int_less_imp_less [of 0 "e + 1"] by simp
  have "(2 :: rat) powi e < 2 powi 53" using b(1) top by simp
  then have e52: "e \<le> 52" using power_int_less_imp_less [of e 53] by simp
  define n where "n = k * 2 ^ nat (52 - e)"
  have q: "(2 :: rat) powi (e - 52) = 1 / 2 ^ nat (52 - e)"
  proof -
    have "(2 :: rat) powi (e - 52) = 2 powi (- (52 - e))" by simp
    also have "\<dots> = inverse (2 powi (52 - e))" by (rule power_int_minus)
    also have "\<dots> = 1 / 2 ^ nat (52 - e)" using e52 by (simp add: power_int_def inverse_eq_divide)
    finally show ?thesis .
  qed
  have xn: "x / 2 powi (e - 52) = of_int n" by (simp add: q n_def x_def)
  have inv: "2 powi (e - 52) * of_int n = x" by (simp add: q n_def x_def)
  have "\<bar>of_int n :: rat\<bar> = \<bar>x\<bar> * 2 powi (52 - e)"
    using e52 by (simp add: n_def x_def abs_mult power_int_def)
  also have "\<dots> \<le> 2 powi (e + 1) * 2 powi (52 - e)"
    using b(2) by (intro mult_right_mono) auto
  also have "\<dots> = 2 powi (e + 1 + (52 - e))" by (rule power_int_add [symmetric]) simp
  also have "\<dots> = 2 powi 53" by simp
  finally have n53: "\<bar>of_int n :: rat\<bar> \<le> 2 powi 53" .
  have "binary64 x = Some (2 powi (e - 52) * of_int n)"
    using x0 b e0 e52 n53 by (intro binary64_value) (simp_all add: xn)
  then show ?thesis by (simp only: inv) (simp add: x_def)
qed

lemma binary64_numeral:
  "(numeral w :: int) < 2 ^ 53 \<Longrightarrow> binary64 (numeral w) = Some (numeral w)"
  using binary64_of_int [of "numeral w"] by simp


section \<open>Virtual time\<close>

text \<open>
  The error of a round trip under any arithmetic whose every rounding has relative error
  at most \<open>u\<close> and absolute error at most \<open>eta\<close>.
\<close>

lemma round_trip_error:
  fixes fl :: arithmetic and u eta :: rat
  assumes acc: "\<And>x y. fl x = Some y \<Longrightarrow> \<bar>y - x\<bar> \<le> u * \<bar>x\<bar> + eta"
    and u: "0 \<le> u" "u \<le> 1" and eta: "0 \<le> eta"
    and r: "timeRatio c \<noteq> 0" and t: "t \<noteq> 0"
    and ts: "VirtualCalendar_timestamp fl c now t = Some v" and v: "v \<noteq> 0"
    and rs: "VirtualCalendar_realStamp fl c now' v = Some s"
  shows "\<bar>s - t\<bar> \<le> 64 * u * (\<bar>t - realBase c\<bar> + \<bar>timeRatio c * virtualBase c\<bar> + \<bar>realBase c\<bar>)
                  + 64 * eta * (1 + \<bar>timeRatio c\<bar>)"
proof -
  define rb vb rr where "rb = realBase c" and "vb = virtualBase c" and "rr = timeRatio c"
  from ts r t obtain a b where
    a: "fl (t - rb) = Some a" and b: "fl (a / rr) = Some b" and v': "fl (b + vb) = Some v"
    by (auto simp: VirtualCalendar_timestamp_def rb_def vb_def rr_def bind_eq_Some_conv)
  from rs v obtain c' d where
    c': "fl (v - vb) = Some c'" and d: "fl (c' * rr) = Some d" and s: "fl (d + rb) = Some s"
    by (auto simp: VirtualCalendar_realStamp_def rb_def vb_def rr_def bind_eq_Some_conv)
  define rho where "rho = \<bar>rr\<bar>"
  have rho: "0 < rho" using r by (simp add: rho_def rr_def)
  define T V B H where "T = \<bar>t - rb\<bar>" and "V = \<bar>rr * vb\<bar>" and "B = \<bar>rb\<bar>" and "H = rho * eta"
  have nonneg: "0 \<le> T" "0 \<le> V" "0 \<le> B" "0 \<le> H"
    using rho eta by (simp_all add: T_def V_def B_def H_def)
  have um: "u * X \<le> u * Y" if "X \<le> Y" for X Y
    using that u(1) by (rule mult_left_mono)
  have ul: "u * X \<le> X" if "0 \<le> X" for X
    using that u by (simp add: mult_left_le_one_le)
  have step: "\<bar>y - x\<bar> \<le> u * X + eta" if "fl x = Some y" "\<bar>x\<bar> \<le> X" for x y X
    using acc [OF that(1)] um [OF that(2)] by linarith
  have scaled: "\<bar>rr * (y - x)\<bar> \<le> u * X + H" if "fl x = Some y" "\<bar>rr * x\<bar> \<le> X" for x y X
  proof -
    have "\<bar>rr * (y - x)\<bar> = rho * \<bar>y - x\<bar>" by (simp add: abs_mult rho_def)
    also have "\<dots> \<le> rho * (u * \<bar>x\<bar> + eta)"
      using acc [OF that(1)] rho by (intro mult_left_mono) auto
    also have "\<dots> = u * \<bar>rr * x\<bar> + H" by (simp add: abs_mult rho_def H_def algebra_simps)
    also have "\<dots> \<le> u * X + H" using um [OF that(2)] by simp
    finally show ?thesis .
  qed
  define e1 f2 f3 f4 e5 e6 where "e1 = a - (t - rb)" and "f2 = rr * (b - a / rr)"
    and "f3 = rr * (v - (b + vb))" and "f4 = rr * (c' - (v - vb))"
    and "e5 = d - c' * rr" and "e6 = s - (d + rb)"
  have total: "s - t = e1 + f2 + f3 + f4 + e5 + e6"
    using r by (simp add: e1_def f2_def f3_def f4_def e5_def e6_def rr_def [symmetric] field_simps)
  define A where "A = 2 * T + eta"
  define Bb where "Bb = 2 * A + H"
  define C0 where "C0 = 2 * Bb + V + H"
  define Cc where "Cc = 2 * C0 + H"
  define D where "D = 2 * Cc + eta"
  have pos: "0 \<le> A" "0 \<le> Bb" "0 \<le> C0" "0 \<le> Cc" "0 \<le> D"
    using nonneg eta by (simp_all add: A_def Bb_def C0_def Cc_def D_def)
  have E1: "\<bar>e1\<bar> \<le> u * T + eta"
    unfolding e1_def by (rule step [OF a]) (simp add: T_def)
  have Pa: "\<bar>a\<bar> \<le> A"
  proof -
    have "a = (t - rb) + e1" by (simp add: e1_def)
    then have "\<bar>a\<bar> \<le> T + \<bar>e1\<bar>" unfolding T_def by linarith
    with E1 ul [OF nonneg(1)] show ?thesis by (simp add: A_def)
  qed
  have F2: "\<bar>f2\<bar> \<le> u * A + H"
    unfolding f2_def using r Pa by (intro scaled [OF b]) (simp add: rr_def)
  have Pb: "\<bar>rr * b\<bar> \<le> Bb"
  proof -
    have "rr * b = a + f2" using r by (simp add: f2_def rr_def field_simps)
    then have "\<bar>rr * b\<bar> \<le> \<bar>a\<bar> + \<bar>f2\<bar>" by linarith
    with Pa F2 ul [OF pos(1)] show ?thesis by (simp add: Bb_def)
  qed
  have F3: "\<bar>f3\<bar> \<le> u * (Bb + V) + H"
  proof -
    have "\<bar>rr * (b + vb)\<bar> \<le> \<bar>rr * b\<bar> + \<bar>rr * vb\<bar>" by (simp add: distrib_left abs_triangle_ineq)
    with Pb have "\<bar>rr * (b + vb)\<bar> \<le> Bb + V" by (simp add: V_def)
    then show ?thesis unfolding f3_def by (rule scaled [OF v'])
  qed
  have P4: "\<bar>rr * (v - vb)\<bar> \<le> C0"
  proof -
    have "rr * (v - vb) = rr * b + f3" by (simp add: f3_def algebra_simps)
    then have "\<bar>rr * (v - vb)\<bar> \<le> \<bar>rr * b\<bar> + \<bar>f3\<bar>" by linarith
    moreover have "u * (Bb + V) \<le> Bb + V" using pos nonneg by (intro ul) simp
    ultimately show ?thesis using Pb F3 by (simp add: C0_def)
  qed
  have F4: "\<bar>f4\<bar> \<le> u * C0 + H"
    unfolding f4_def by (rule scaled [OF c' P4])
  have Pc: "\<bar>c' * rr\<bar> \<le> Cc"
  proof -
    have "c' * rr = rr * (v - vb) + f4" by (simp add: f4_def algebra_simps)
    then have "\<bar>c' * rr\<bar> \<le> \<bar>rr * (v - vb)\<bar> + \<bar>f4\<bar>" by linarith
    with P4 F4 ul [OF pos(3)] show ?thesis by (simp add: Cc_def)
  qed
  have E5: "\<bar>e5\<bar> \<le> u * Cc + eta"
    unfolding e5_def by (rule step [OF d Pc])
  have Pd: "\<bar>d\<bar> \<le> D"
  proof -
    have "d = c' * rr + e5" by (simp add: e5_def)
    then have "\<bar>d\<bar> \<le> \<bar>c' * rr\<bar> + \<bar>e5\<bar>" by linarith
    with Pc E5 ul [OF pos(4)] show ?thesis by (simp add: D_def)
  qed
  have E6: "\<bar>e6\<bar> \<le> u * (D + B) + eta"
  proof -
    have "\<bar>d + rb\<bar> \<le> D + B" using Pd unfolding B_def by linarith
    then show ?thesis unfolding e6_def by (rule step [OF s])
  qed
  define K where "K = T + A + (Bb + V) + C0 + Cc + (D + B)"
  have "\<bar>s - t\<bar> \<le> \<bar>e1\<bar> + \<bar>f2\<bar> + \<bar>f3\<bar> + \<bar>f4\<bar> + \<bar>e5\<bar> + \<bar>e6\<bar>"
    unfolding total by linarith
  also have "\<dots> \<le> u * K + 3 * eta + 3 * H"
    using E1 F2 F3 F4 E5 E6 by (simp add: K_def distrib_left)
  finally have sum: "\<bar>s - t\<bar> \<le> u * K + 3 * eta + 3 * H" .
  have K: "K \<le> 64 * (T + V + B) + (32 * eta + 25 * H)"
    using nonneg eta by (simp add: K_def A_def Bb_def C0_def Cc_def D_def)
  have "u * K \<le> u * (64 * (T + V + B) + (32 * eta + 25 * H))" by (rule um [OF K])
  also have "\<dots> = 64 * u * (T + V + B) + u * (32 * eta + 25 * H)" by (simp add: algebra_simps)
  also have "\<dots> \<le> 64 * u * (T + V + B) + (32 * eta + 25 * H)"
    using ul [of "32 * eta + 25 * H"] nonneg eta by simp
  finally have "\<bar>s - t\<bar> \<le> 64 * u * (T + V + B) + 35 * eta + 28 * H" using sum by linarith
  also have "\<dots> \<le> 64 * u * (T + V + B) + 64 * eta * (1 + rho)"
    using nonneg eta by (simp add: H_def algebra_simps)
  finally show ?thesis
    by (simp add: T_def V_def B_def rho_def rb_def vb_def rr_def)
qed

lemma binary64_round_trip_error:
  assumes "timeRatio c \<noteq> 0" and "t \<noteq> 0"
    and "VirtualCalendar_timestamp binary64 c now t = Some v" and "v \<noteq> 0"
    and "VirtualCalendar_realStamp binary64 c now' v = Some s"
  shows "\<bar>s - t\<bar> \<le> round_trip_epsilon c t"
proof -
  have u: "64 * (2 :: rat) powi (- 53) = 2 powi (- 47)" by (simp add: power_int_minus)
  have eta: "64 * (2 :: rat) powi (- 1075) = 2 powi (- 1069)" by (simp add: power_int_minus)
  have "(0 :: rat) \<le> 2 powi (- 53)" "(2 :: rat) powi (- 53) \<le> 1" "(0 :: rat) \<le> 2 powi (- 1075)"
    by (simp_all add: power_int_minus inverse_le_1_iff)
  from round_trip_error [of binary64, OF binary64_error this assms]
  show ?thesis by (simp only: u eta round_trip_epsilon_def)
qed

lemma exact_round_trip:
  assumes "timeRatio c \<noteq> 0" and "t \<noteq> 0" and "VirtualCalendar_timestamp exact c now t \<noteq> Some 0"
  shows "Option.bind (VirtualCalendar_timestamp exact c now t) (VirtualCalendar_realStamp exact c now') = Some t"
  using assms by (simp add: VirtualCalendar_timestamp_def VirtualCalendar_realStamp_def exact_def)

lemma binary64_timestamp_returns:
  assumes m: "moderate c" and t: "\<bar>t\<bar> \<le> 2 ^ 62" and n: "\<bar>now\<bar> \<le> 2 ^ 62"
  shows "\<exists>v. VirtualCalendar_timestamp binary64 c now t = Some v \<and> \<bar>v\<bar> \<le> 2 ^ 132"
proof -
  define time where "time = (if t \<noteq> 0 then t else now)"
  define r where "r = timeRatio c"
  from m have rb: "\<bar>realBase c\<bar> \<le> 2 ^ 62" and vb: "\<bar>virtualBase c\<bar> \<le> 2 ^ 62"
    and rlo: "2 powi (- 62) \<le> \<bar>r\<bar>" by (simp_all add: moderate_def r_def)
  have big: "(2 :: rat) ^ k \<le> 2 powi 1022" if "k \<le> 1022" for k :: nat
  proof -
    have "(2 :: rat) ^ k = 2 powi (int k)" by simp
    also have "\<dots> \<le> 2 powi 1022" using that by (intro power_int_increasing) auto
    finally show ?thesis .
  qed
  have rpos: "0 < \<bar>r\<bar>" using rlo by (simp add: power_int_minus)
  then have r0: "r \<noteq> 0" by simp
  have rinv: "1 / \<bar>r\<bar> \<le> 2 ^ 62"
  proof -
    have "1 / \<bar>r\<bar> \<le> 1 / 2 powi (- 62)" using rlo by (intro divide_left_mono) auto
    also have "\<dots> = 2 ^ 62" by (simp add: power_int_minus)
    finally show ?thesis .
  qed
  have "\<bar>time\<bar> \<le> 2 ^ 62" using t n by (simp add: time_def)
  with rb have "\<bar>time - realBase c\<bar> \<le> 2 ^ 63" by simp
  from binary64_returns [OF this big] obtain a where
    a: "binary64 (time - realBase c) = Some a" and "\<bar>a\<bar> \<le> 2 * 2 ^ 63 + 1" by auto
  then have a65: "\<bar>a\<bar> \<le> 2 ^ 65" by simp
  have "\<bar>a / r\<bar> = \<bar>a\<bar> * (1 / \<bar>r\<bar>)" by simp
  also have "\<dots> \<le> 2 ^ 65 * 2 ^ 62" using a65 rinv by (intro mult_mono) auto
  finally have "\<bar>a / r\<bar> \<le> 2 ^ 127" by simp
  from binary64_returns [OF this big] obtain b where
    b: "binary64 (a / r) = Some b" and "\<bar>b\<bar> \<le> 2 * 2 ^ 127 + 1" by auto
  with vb have "\<bar>b + virtualBase c\<bar> \<le> 2 ^ 130" by simp
  from binary64_returns [OF this big] obtain v where
    v: "binary64 (b + virtualBase c) = Some v" and "\<bar>v\<bar> \<le> 2 * 2 ^ 130 + 1" by auto
  then have "\<bar>v\<bar> \<le> 2 ^ 132" by simp
  with a b v r0 show ?thesis
    by (simp add: VirtualCalendar_timestamp_def time_def [symmetric] r_def [symmetric])
qed

lemma binary64_realStamp_returns:
  assumes m: "moderate c" and t: "\<bar>v\<bar> \<le> 2 ^ 132" and n: "\<bar>now\<bar> \<le> 2 ^ 62"
  shows "\<exists>s. VirtualCalendar_realStamp binary64 c now v = Some s"
proof -
  define time where "time = (if v \<noteq> 0 then v else now)"
  define r where "r = timeRatio c"
  from m have rb: "\<bar>realBase c\<bar> \<le> 2 ^ 62" and vb: "\<bar>virtualBase c\<bar> \<le> 2 ^ 62"
    and rhi: "\<bar>r\<bar> \<le> 2 ^ 62" by (simp_all add: moderate_def r_def)
  have big: "(2 :: rat) ^ k \<le> 2 powi 1022" if "k \<le> 1022" for k :: nat
  proof -
    have "(2 :: rat) ^ k = 2 powi (int k)" by simp
    also have "\<dots> \<le> 2 powi 1022" using that by (intro power_int_increasing) auto
    finally show ?thesis .
  qed
  have "\<bar>time\<bar> \<le> 2 ^ 132" using t n by (simp add: time_def)
  with vb have "\<bar>time - virtualBase c\<bar> \<le> 2 ^ 133" by simp
  from binary64_returns [OF this big] obtain a where
    a: "binary64 (time - virtualBase c) = Some a" and "\<bar>a\<bar> \<le> 2 * 2 ^ 133 + 1" by auto
  then have a135: "\<bar>a\<bar> \<le> 2 ^ 135" by simp
  have "\<bar>a * r\<bar> = \<bar>a\<bar> * \<bar>r\<bar>" by (simp add: abs_mult)
  also have "\<dots> \<le> 2 ^ 135 * 2 ^ 62" using a135 rhi by (intro mult_mono) auto
  finally have "\<bar>a * r\<bar> \<le> 2 ^ 197" by simp
  from binary64_returns [OF this big] obtain b where
    b: "binary64 (a * r) = Some b" and "\<bar>b\<bar> \<le> 2 * 2 ^ 197 + 1" by auto
  with rb have "\<bar>b + realBase c\<bar> \<le> 2 ^ 200" by simp
  from binary64_returns [OF this big] obtain s where
    s: "binary64 (b + realBase c) = Some s" by auto
  with a b show ?thesis
    by (simp add: VirtualCalendar_realStamp_def time_def [symmetric] r_def [symmetric])
qed



lemma half_day_timestamp_0:
  "VirtualCalendar_timestamp binary64 half_day 1501540000000 0 = Some 1519880000000"
  by (simp add: VirtualCalendar_timestamp_def half_day_def binary64_numeral)

lemma half_day_realStamp:
  "VirtualCalendar_realStamp binary64 half_day 1501540000000 1519880000000 = Some 1501540000000"
  by (simp add: VirtualCalendar_realStamp_def half_day_def binary64_numeral)


lemma three_days_timestamp:
  "VirtualCalendar_timestamp binary64 three_days now 1501540000000 = Some (6100227413333333 / 4096)"
proof -
  have a: "binary64 18340000000 = Some 18340000000" by (simp add: binary64_numeral)
  have b: "binary64 (18340000000 / 3) = Some (6410294613333333 / 1048576)"
    using binary64_value [of "18340000000 / 3" 32 6410294613333333] by simp
  have v: "binary64 (1561658217813333333 / 1048576) = Some (6100227413333333 / 4096)"
    using binary64_value [of "1561658217813333333 / 1048576" 40 6100227413333333] by simp
  show ?thesis
    by (simp add: VirtualCalendar_timestamp_def three_days_def a b v)
qed

lemma three_days_realStamp:
  "VirtualCalendar_realStamp binary64 three_days now (6100227413333333 / 4096)
     = Some (6150307839999999 / 4096)"
proof -
  have c: "binary64 (25040213333333 / 4096) = Some (25040213333333 / 4096)"
    using binary64_value [of "25040213333333 / 4096" 32 6410294613333248] by simp
  have d: "binary64 (75120639999999 / 4096) = Some (75120639999999 / 4096)"
    using binary64_value [of "75120639999999 / 4096" 34 4807720959999936] by simp
  have s: "binary64 (6150307839999999 / 4096) = Some (6150307839999999 / 4096)"
    using binary64_value [of "6150307839999999 / 4096" 40 6150307839999999] by simp
  show ?thesis
    by (simp add: VirtualCalendar_realStamp_def three_days_def c d s)
qed

lemma moderate_three_days: "moderate three_days"
  by (simp add: moderate_def three_days_def power_int_minus)

text \<open>
  C5 (amended): for a non-zero ratio and a real timestamp t other than 0 whose virtual
  image is not 0, realStamp(timestamp(t)) = t exactly under exact arithmetic.  In
  binary64, whenever both conversions return finite numbers, the round trip returns a
  number within \<open>round_trip_epsilon\<close> of t, that is within
  \<open>2\<^sup>-\<^sup>4\<^sup>7 (\<bar>t - realBase\<bar> + \<bar>ratio * virtualBase\<bar> + \<bar>realBase\<bar>) + 2\<^sup>-\<^sup>1\<^sup>0\<^sup>6\<^sup>9 (1 + \<bar>ratio\<bar>)\<close>;
  and both conversions do return finite numbers when the calendar is moderate and the
  timestamp and the clock are at most \<open>2\<^sup>6\<^sup>2\<close> in magnitude.
\<close>

theorem virtual_round_trip:
  assumes "timeRatio c \<noteq> 0" and "t \<noteq> 0"
  shows "(VirtualCalendar_timestamp exact c now t \<noteq> Some 0 \<longrightarrow>
            Option.bind (VirtualCalendar_timestamp exact c now t) (VirtualCalendar_realStamp exact c now')
              = Some t)
       \<and> (VirtualCalendar_timestamp binary64 c now t = Some v \<longrightarrow> v \<noteq> 0 \<longrightarrow>
            VirtualCalendar_realStamp binary64 c now' v = Some s \<longrightarrow>
            \<bar>s - t\<bar> \<le> round_trip_epsilon c t)
       \<and> (moderate c \<longrightarrow> \<bar>t\<bar> \<le> 2 ^ 62 \<longrightarrow> \<bar>now\<bar> \<le> 2 ^ 62 \<longrightarrow> \<bar>now'\<bar> \<le> 2 ^ 62 \<longrightarrow>
            Option.bind (VirtualCalendar_timestamp binary64 c now t)
              (VirtualCalendar_realStamp binary64 c now') \<noteq> None)"
proof (intro conjI impI)
  assume "VirtualCalendar_timestamp exact c now t \<noteq> Some 0"
  with assms show "Option.bind (VirtualCalendar_timestamp exact c now t)
      (VirtualCalendar_realStamp exact c now') = Some t"
    by (rule exact_round_trip)
next
  assume "VirtualCalendar_timestamp binary64 c now t = Some v" "v \<noteq> 0"
    "VirtualCalendar_realStamp binary64 c now' v = Some s"
  with assms show "\<bar>s - t\<bar> \<le> round_trip_epsilon c t"
    by (rule binary64_round_trip_error)
next
  assume m: "moderate c" and b: "\<bar>t\<bar> \<le> 2 ^ 62" "\<bar>now\<bar> \<le> 2 ^ 62" "\<bar>now'\<bar> \<le> 2 ^ 62"
  from binary64_timestamp_returns [OF m b(1,2)] obtain w where
    w: "VirtualCalendar_timestamp binary64 c now t = Some w" "\<bar>w\<bar> \<le> 2 ^ 132" by auto
  from binary64_realStamp_returns [OF m w(2) b(3)] obtain z where
    "VirtualCalendar_realStamp binary64 c now' w = Some z" by auto
  with w show "Option.bind (VirtualCalendar_timestamp binary64 c now t)
      (VirtualCalendar_realStamp binary64 c now') \<noteq> None"
    by simp
qed

theorem virtual_round_trip_witness:
  "VirtualCalendar_timestamp binary64 three_days 1501540000000 1501540000000
     = Some (6100227413333333 / 4096)
   \<and> VirtualCalendar_realStamp binary64 three_days 1501540000000 (6100227413333333 / 4096)
     = Some (6150307839999999 / 4096)
   \<and> \<bar>6150307839999999 / 4096 - 1501540000000\<bar> \<le> round_trip_epsilon three_days 1501540000000
   \<and> (6150307839999999 / 4096 :: rat) \<noteq> 1501540000000
   \<and> round_trip_epsilon three_days 1501540000000 < 1
   \<and> moderate three_days
   \<and> Option.bind (VirtualCalendar_timestamp binary64 three_days 1501540000000 1501540000000)
        (VirtualCalendar_realStamp binary64 three_days 1501540000000) \<noteq> None
   \<and> Option.bind (VirtualCalendar_timestamp exact three_days 1501540000000 1501540000000)
        (VirtualCalendar_realStamp exact three_days 1501540000000) = Some 1501540000000"
proof -
  have r: "timeRatio three_days \<noteq> 0" by (simp add: three_days_def)
  have t: "(1501540000000 :: rat) \<noteq> 0" "\<bar>1501540000000 :: rat\<bar> \<le> 2 ^ 62" by simp_all
  have v: "(6100227413333333 / 4096 :: rat) \<noteq> 0" by simp
  have e: "VirtualCalendar_timestamp exact three_days 1501540000000 1501540000000 \<noteq> Some 0"
    by (simp add: VirtualCalendar_timestamp_def three_days_def exact_def)
  note ts = three_days_timestamp [of 1501540000000]
  note rs = three_days_realStamp [of 1501540000000]
  note m = moderate_three_days
  note th = virtual_round_trip [of three_days 1501540000000 1501540000000 1501540000000
      "6100227413333333 / 4096" "6150307839999999 / 4096", OF r t(1)]
  from th ts v rs
  have eps: "\<bar>6150307839999999 / 4096 - 1501540000000\<bar> \<le> round_trip_epsilon three_days 1501540000000"
    by blast
  from th m t(2)
  have fin: "Option.bind (VirtualCalendar_timestamp binary64 three_days 1501540000000 1501540000000)
        (VirtualCalendar_realStamp binary64 three_days 1501540000000) \<noteq> None"
    by blast
  from th e
  have ex: "Option.bind (VirtualCalendar_timestamp exact three_days 1501540000000 1501540000000)
        (VirtualCalendar_realStamp exact three_days 1501540000000) = Some 1501540000000"
    by blast
  have ne: "(6150307839999999 / 4096 :: rat) \<noteq> 1501540000000" by simp
  have small: "round_trip_epsilon three_days 1501540000000 < 1"
    by (simp add: round_trip_epsilon_def three_days_def power_int_minus)
  from ts rs eps ne small m fin ex show ?thesis by blast
qed

theorem virtual_round_trip_counterexample:
  "Option.bind (VirtualCalendar_timestamp binary64 half_day 1501540000000 0)
     (VirtualCalendar_realStamp binary64 half_day 1501540000000) = Some 1501540000000
   \<and> Option.bind (VirtualCalendar_timestamp exact half_day 1501540000000 0)
     (VirtualCalendar_realStamp exact half_day 1501540000000) = Some 1501540000000
   \<and> \<not> \<bar>1501540000000 - 0\<bar> \<le> round_trip_epsilon half_day 0"
proof -
  have "Option.bind (VirtualCalendar_timestamp exact half_day 1501540000000 0)
     (VirtualCalendar_realStamp exact half_day 1501540000000) = Some 1501540000000"
    by (simp add: VirtualCalendar_timestamp_def VirtualCalendar_realStamp_def half_day_def exact_def)
  moreover have "\<not> \<bar>1501540000000 - 0\<bar> \<le> round_trip_epsilon half_day 0"
    by (simp add: round_trip_epsilon_def half_day_def power_int_minus)
  ultimately show ?thesis
    by (simp add: half_day_timestamp_0 half_day_realStamp)
qed



section \<open>Session resolution\<close>

lemma timeInfo_loop_result:
  assumes "timeInfo_loop c dir d = Some r"
  shows "case r of
        Inr ti \<Rightarrow> 0 < days (tradeDate ti) \<and> days (tradeDate ti) < 6 \<and> timePeriods ti \<noteq> []
      | Inl err \<Rightarrow> (\<exists>s e. finder c s e = Inl err)"
proof (rule timeInfo_loop.raw_induct [where P = "\<lambda>c dir d r. case r of
        Inr ti \<Rightarrow> 0 < days (tradeDate ti) \<and> days (tradeDate ti) < 6 \<and> timePeriods ti \<noteq> []
      | Inl err \<Rightarrow> (\<exists>s e. finder c s e = Inl err)", OF _ assms])
  fix loop :: "TradeCalendar \<Rightarrow> int \<Rightarrow> int \<Rightarrow> (error + TimeInfo) option"
    and c :: TradeCalendar and dir d :: int and r :: "error + TimeInfo"
  assume IH: "\<And>(c :: TradeCalendar) dir d r. loop c dir d = Some r \<Longrightarrow> case r of
        Inr ti \<Rightarrow> 0 < days (tradeDate ti) \<and> days (tradeDate ti) < 6 \<and> timePeriods ti \<noteq> []
      | Inl err \<Rightarrow> (\<exists>s e. finder c s e = Inl err)"
  assume step: "(if days d > 0 \<and> days d < 6 then
        (let s = local_point2timestamp c d (cfg_start (config c));
             e = local_point2timestamp c d (cfg_end (config c))
         in case findHolidays (finder c) s e of
              Inl err \<Rightarrow> Some (Inl err)
            | Inr holidays \<Rightarrow>
                if holidays \<noteq> [] then
                  (if session_periods c s e holidays = []
                   then loop c dir (d + dir)
                   else Some (Inr (day_info c d (session_periods c s e holidays))))
                else Some (Inr (day_info c d [\<lparr>pstart = stamp c s, pend = stamp c e\<rparr>])))
      else loop c dir (d + dir)) = Some r"
  show "case r of
        Inr ti \<Rightarrow> 0 < days (tradeDate ti) \<and> days (tradeDate ti) < 6 \<and> timePeriods ti \<noteq> []
      | Inl err \<Rightarrow> (\<exists>s e. finder c s e = Inl err)"
  proof (cases "days d > 0 \<and> days d < 6")
    case False
    with step have "loop c dir (d + dir) = Some r" by auto
    then show ?thesis by (rule IH)
  next
    case True
    show ?thesis
    proof (cases "findHolidays (finder c)
            (local_point2timestamp c d (cfg_start (config c)))
            (local_point2timestamp c d (cfg_end (config c)))")
      case (Inl err)
      with step True have "r = Inl err" by (simp add: Let_def)
      moreover from Inl have "\<exists>s e. finder c s e = Inl err"
        by (auto simp: findHolidays_def split: sum.splits option.splits)
      ultimately show ?thesis by simp
    next
      case (Inr holidays)
      with step True IH show ?thesis
        by (auto simp: Let_def day_info_def split: if_splits)
    qed
  qed
qed

lemma timeInfo_loop_open_day:
  assumes "0 < days d" and "days d < 6"
    and "findHolidays (finder c) (local_point2timestamp c d (cfg_start (config c)))
           (local_point2timestamp c d (cfg_end (config c))) = Inr []"
  shows "timeInfo_loop c dir d =
     Some (Inr (day_info c d
        [\<lparr>pstart = stamp c (local_point2timestamp c d (cfg_start (config c))),
          pend = stamp c (local_point2timestamp c d (cfg_end (config c)))\<rparr>]))"
  using assms by (subst timeInfo_loop.simps) (simp add: Let_def)

lemma timeInfo_loop_weekend:
  assumes "\<not> (0 < days d \<and> days d < 6)"
  shows "timeInfo_loop c dir d = timeInfo_loop c dir (d + dir)"
proof -
  from assms have "(0 < days d \<and> days d < 6) = False" by simp
  then show ?thesis by (subst timeInfo_loop.simps) (simp only: if_False)
qed

lemma timeInfo_loop_source_error:
  assumes "0 < days d" and "days d < 6"
    and "findHolidays (finder c) (local_point2timestamp c d (cfg_start (config c)))
           (local_point2timestamp c d (cfg_end (config c))) = Inl err"
  shows "timeInfo_loop c dir d = Some (Inl err)"
  using assms by (subst timeInfo_loop.simps) (simp add: Let_def)

lemma cn_simps:
  "oid cn = 1" "cname cn = ''trade''" "config cn = test_config" "tzOffset cn = 28800000"
  "hostOffset cn = 0" "finder cn = emptyHolidayFinder" "cal_tradeDate cn = None"
  "systemPeriods cn = []" "timeInfoHandler cn = None" "startTimeHandler cn = None"
  "endTimeHandler cn = None" "marketOpenTimeHandler cn = None"
  "marketCloseTimeHandler cn = None" "timeHandler cn = None"
  by (simp_all add: cn_def new_calendar_def)

lemma test_config_ms:
  "point_ms (cfg_start test_config) = 34200000" "point_ms (cfg_end test_config) = 57600000"
  "point_ms (cp_end (cfg_after test_config)) = 62700000"
  by (simp_all add: test_config_def point_ms_def)

text \<open>
  C6: every TimeInfo that timeInfo returns, for any calendar, date and direction, has a
  trade date on a weekday from Monday to Friday and at least one period; and when
  timeInfo fails, the error is one the holiday source returned.
\<close>

theorem timeInfo_returns_trading_day:
  "(timeInfo c date direction = Some (Inr ti) \<longrightarrow>
      0 < days (tradeDate ti) \<and> days (tradeDate ti) < 6 \<and> timePeriods ti \<noteq> [])
   \<and> (timeInfo c date direction = Some (Inl err) \<longrightarrow> (\<exists>s e. finder c s e = Inl err))"
  using timeInfo_loop_result [of c "norm_direction direction" date "Inr ti"]
    timeInfo_loop_result [of c "norm_direction direction" date "Inl err"]
  by (simp add: timeInfo_def)

theorem timeInfo_returns_trading_day_witness:
  "timeInfo cn 17377 (Some 1) =
     Some (Inr \<lparr>tradeDate = 17378,
                timePeriods = [\<lparr>pstart = 1501464600000, pend = 1501488000000\<rparr>],
                dayStart = 1501430400000, dayEnd = 1501516799999\<rparr>)
   \<and> days 17377 = 0 \<and> days 17378 = 1
   \<and> timeInfo (cn\<lparr>finder := source_down\<rparr>) 17379 None = Some (Inl (SourceError ''down''))
   \<and> source_down 0 0 = Inl (SourceError ''down'')"
proof -
  let ?ti = "\<lparr>tradeDate = 17378,
                timePeriods = [\<lparr>pstart = 1501464600000, pend = 1501488000000\<rparr>],
                dayStart = 1501430400000, dayEnd = 1501516799999\<rparr>"
  have "timeInfo_loop cn 1 17377 = timeInfo_loop cn 1 17378"
    using timeInfo_loop_weekend [of 17377 cn 1] by (simp add: days_def)
  also have "\<dots> = Some (Inr ?ti)"
    by (subst timeInfo_loop_open_day)
       (simp_all add: days_def cn_simps findHolidays_def emptyHolidayFinder_def normalize_def
          day_info_def stamp_def local_point2timestamp_def test_config_ms DAY_def)
  finally have ok: "timeInfo cn 17377 (Some 1) = Some (Inr ?ti)"
    by (simp add: timeInfo_def norm_direction_def)
  have down: "timeInfo (cn\<lparr>finder := source_down\<rparr>) 17379 None = Some (Inl (SourceError ''down''))"
    unfolding timeInfo_def
    by (subst timeInfo_loop_source_error [where err = "SourceError ''down''"])
       (simp_all add: days_def findHolidays_def source_down_def)
  from timeInfo_returns_trading_day [of cn 17377 "Some 1" ?ti] ok
  have "0 < days 17378 \<and> days 17378 < 6" by simp
  moreover from timeInfo_returns_trading_day [of "cn\<lparr>finder := source_down\<rparr>" 17379 None _ "SourceError ''down''"] down
  have "\<exists>s e. source_down s e = Inl (SourceError ''down'')" by simp
  ultimately show ?thesis using ok down by (simp add: days_def source_down_def)
qed

text \<open>
  C1 (fails on the code): with two disjoint holidays inside the session of 2017-08-01,
  timeInfo returns four periods that are neither in ascending order nor disjoint: each
  holiday contributes the time before it and the time after it, so the periods of the
  second holiday start again at the session's start and overlap those of the first.
\<close>

theorem two_holidays_give_overlapping_periods:
  "timeInfo (cn\<lparr>finder := two_breaks\<rparr>) 17379 None =
     Some (Inr \<lparr>tradeDate = 17379,
                timePeriods = [\<lparr>pstart = 1501551000000, pend = 1501554600000\<rparr>,
                               \<lparr>pstart = 1501558200000, pend = 1501574400000\<rparr>,
                               \<lparr>pstart = 1501551000000, pend = 1501561800000\<rparr>,
                               \<lparr>pstart = 1501565400000, pend = 1501574400000\<rparr>],
                dayStart = 1501516800000, dayEnd = 1501603199999\<rparr>)
   \<and> \<not> chronological [\<lparr>pstart = 1501551000000, pend = 1501554600000\<rparr>,
                        \<lparr>pstart = 1501558200000, pend = 1501574400000\<rparr>,
                        \<lparr>pstart = 1501551000000, pend = 1501561800000\<rparr>,
                        \<lparr>pstart = 1501565400000, pend = 1501574400000\<rparr>]"
  unfolding timeInfo_def
  by (subst timeInfo_loop.simps)
     (simp add: days_def cn_simps two_breaks_def findHolidays_def normalize_def
        local_point2timestamp_def stamp_def DAY_def test_config_ms day_info_def
        session_periods_def holiday_periods_def chronological_def)

lemma single_holiday_chronological:
  "pstart h \<le> pend h \<Longrightarrow> chronological (session_periods c s e [h])"
  by (simp add: session_periods_def holiday_periods_def chronological_def stamp_def)

lemma timeInfo_returns_without_holidays:
  assumes "\<And>s e. findHolidays (finder c) s e = Inr []"
  shows "\<exists>ti. timeInfo c d direction = Some (Inr ti)"
proof -
  define dir where "dir = norm_direction direction"
  have dir: "dir = 1 \<or> dir = - 1"
    by (simp add: dir_def norm_direction_def split: option.splits)
  have open_day: "\<exists>ti. timeInfo_loop c dir x = Some (Inr ti)" if "0 < days x" "days x < 6" for x
    using timeInfo_loop_open_day [OF that assms] by blast
  have rng: "days d = 0 \<or> days d = 1 \<or> days d = 2 \<or> days d = 3 \<or> days d = 4 \<or> days d = 5 \<or> days d = 6"
  proof -
    have "0 \<le> days d" and "days d < 7" by (simp_all add: days_def)
    then show ?thesis by arith
  qed
  have nxt: "days (x + 1) = (days x + 1) mod 7" "days (1 + x) = (days x + 1) mod 7"
      "days (x + 2) = (days x + 2) mod 7" "days (2 + x) = (days x + 2) mod 7"
    and prv: "days (x - 1) = (days x - 1) mod 7" "days (x - 2) = (days x - 2) mod 7" for x
    by (simp_all add: days_def mod_simps algebra_simps)
  have wk: "(0 < days d \<and> days d < 6) \<or> (0 < days (d + dir) \<and> days (d + dir) < 6)
        \<or> (\<not> (0 < days d \<and> days d < 6) \<and> \<not> (0 < days (d + dir) \<and> days (d + dir) < 6)
            \<and> 0 < days (d + dir + dir) \<and> days (d + dir + dir) < 6)"
  proof -
    from dir show ?thesis
    proof
      assume "dir = 1"
      with rng show ?thesis by (auto simp: nxt)
    next
      assume "dir = - 1"
      with rng show ?thesis by (auto simp: prv)
    qed
  qed
  then have "\<exists>ti. timeInfo_loop c dir d = Some (Inr ti)"
  proof (elim disjE conjE)
    assume "0 < days d" "days d < 6"
    then show ?thesis by (rule open_day)
  next
    assume a: "0 < days (d + dir)" "days (d + dir) < 6"
    show ?thesis
    proof (cases "0 < days d \<and> days d < 6")
      case True then show ?thesis using open_day by blast
    next
      case False
      then show ?thesis using timeInfo_loop_weekend [OF False, of c dir] open_day [OF a] by simp
    qed
  next
    assume n1: "\<not> (0 < days d \<and> days d < 6)" and n2: "\<not> (0 < days (d + dir) \<and> days (d + dir) < 6)"
      and a: "0 < days (d + dir + dir)" "days (d + dir + dir) < 6"
    show ?thesis
      using timeInfo_loop_weekend [OF n1, of c dir] timeInfo_loop_weekend [OF n2, of c dir]
        open_day [OF a] by simp
  qed
  then show ?thesis by (simp add: timeInfo_def dir_def)
qed

section \<open>The manager\<close>

lemma realTimeInfo_None: "realTimeInfo c now None dir = realTimeInfo c now (Some (today c now)) dir"
  by (simp add: realTimeInfo_def)

lemma realTimeInfo_cn:
  assumes "0 < days d" and "days d < 6" and "0 < d"
  shows "realTimeInfo cn now (Some d) dir =
     Some (Inr \<lparr>tradeDate = d,
        timePeriods = [\<lparr>pstart = d * DAY + 5400000, pend = d * DAY + 28800000\<rparr>],
        dayStart = d * DAY - 28800000, dayEnd = d * DAY + 57599999\<rparr>)"
proof -
  have "timeInfo cn d dir = Some (Inr (day_info cn d
        [\<lparr>pstart = stamp cn (local_point2timestamp cn d (cfg_start (config cn))),
          pend = stamp cn (local_point2timestamp cn d (cfg_end (config cn)))\<rparr>]))"
    unfolding timeInfo_def using assms(1,2)
    by (rule timeInfo_loop_open_day)
       (simp add: cn_simps findHolidays_def emptyHolidayFinder_def normalize_def)
  moreover have "0 < d * DAY" using assms(3) by (simp add: DAY_def)
  ultimately show ?thesis
    by (simp add: realTimeInfo_def day_info_def stamp_def local_point2timestamp_def cn_simps
        test_config_ms realTimePeriod_def TradeCalendar_realStamp_def DAY_def)
qed

lemmas manager_defs =
  armTimers_def modify_def emit_def changeSystemPeriod_def Let_def clear_if_set_def
  realTimeoutAt_def setTimeout_def marketOpen_of_def marketClose_of_def armMarketTimers_def
  truthy_def setTimeoutAt_def TradeCalendar_timestamp_def armAfterMarketClose_def
  afterMarketEnd_def point2timestamp_def clearTimeout_def

lemma start_registers:
  "start (new_manager now) (Unnamed cn) = setTimeInfo (registered now) ''trade'' None False"
  by (simp add: start_def new_manager_def registered_def cn_simps)

text \<open>
  C9: when the clock is already past the after-market-close boundary of the resolved
  trade date, setTimeInfo is the same call on the same world (no timer armed, no state
  changed, no event emitted) anchored at the day after that trade date; nothing is thrown
  for the skipped day.
\<close>

theorem setTimeInfo_catches_up:
  assumes "calendars w name = Some calendar"
    and "realTimeInfo calendar (clock w) anchor None = Some (Inr info)"
    and "clock w > realAfterMarketEnd calendar (clock w) (tradeDate info)"
  shows "setTimeInfo w name anchor retry = setTimeInfo w name (Some (tradeDate info + 1)) retry"
  by (subst setTimeInfo.simps) (simp add: assms)

lemma registered_simps:
  "calendars (registered now) ''trade'' = Some cn" "clock (registered now) = now"
  "timers (registered now) = Map.empty" "nextHandle (registered now) = 0"
  "emitted (registered now) = []"
  by (simp_all add: registered_def new_manager_def)

lemma cn_after_market_end: "afterMarketEnd cn d = d * DAY + 33900000"
  by (simp add: afterMarketEnd_def point2timestamp_def cn_simps test_config_ms)

theorem setTimeInfo_catches_up_witness:
  "setTimeInfo (registered 1501581600000) ''trade'' None False =
     setTimeInfo (registered 1501581600000) ''trade'' (Some 17380) False
   \<and> emitted (returned_world (setTimeInfo (registered 1501581600000) ''trade'' None False)) =
       [TradeDateChange ''trade'' 17380 (Some 17379) (Some 17381),
        SystemPeriodChange ''trade'' \<lparr>pstart = 1501637400000, pend = 1501660800000\<rparr> []]
   \<and> thrown (setTimeInfo (registered 1501581600000) ''trade'' None False) = None"
proof -
  let ?w = "registered 1501581600000"
  let ?info = "\<lparr>tradeDate = 17379,
                timePeriods = [\<lparr>pstart = 1501551000000, pend = 1501574400000\<rparr>],
                dayStart = 1501516800000, dayEnd = 1501603199999\<rparr>"
  have h1: "calendars ?w ''trade'' = Some cn" by (simp add: registered_simps)
  have h2: "realTimeInfo cn (clock ?w) None None = Some (Inr ?info)"
    by (simp add: registered_simps realTimeInfo_None today_def TradeCalendar_timestamp_def cn_simps
        DAY_def realTimeInfo_cn days_def)
  have h3: "clock ?w > realAfterMarketEnd cn (clock ?w) (tradeDate ?info)"
    by (simp add: registered_simps realAfterMarketEnd_def cn_after_market_end DAY_def
        TradeCalendar_realStamp_def)
  have skip: "setTimeInfo ?w ''trade'' None False = setTimeInfo ?w ''trade'' (Some 17380) False"
    using setTimeInfo_catches_up [OF h1 h2 h3, of False] by simp
  have next_day: "emitted (returned_world (setTimeInfo ?w ''trade'' (Some 17380) False)) =
       [TradeDateChange ''trade'' 17380 (Some 17379) (Some 17381),
        SystemPeriodChange ''trade'' \<lparr>pstart = 1501637400000, pend = 1501660800000\<rparr> []]
     \<and> thrown (setTimeInfo ?w ''trade'' (Some 17380) False) = None"
    apply (subst setTimeInfo.simps, subst (2) setTimeInfo.simps)
    apply (simp add: registered_simps realTimeInfo_cn days_def)
    apply (simp add: realAfterMarketEnd_def cn_after_market_end DAY_def TradeCalendar_realStamp_def)
    apply (simp add: changeTradeDate_def cn_simps realTimeInfo_cn days_def registered_simps)
    apply (simp add: manager_defs cn_simps test_config_ms DAY_def registered_def new_manager_def
        returned_world_def thrown_def)
    done
  from skip next_day show ?thesis by simp
qed

lemma start_before_open:
  "start (new_manager 1501540000000) (Unnamed cn) = Some (Returned (\<lparr>calendars =
        [''trade'' \<mapsto>
         cn\<lparr>cal_preTradeDate := Some 17378, cal_nextTradeDate := Some 17380,
            cal_tradeDate := Some 17379, cal_dayStart := 1501516800000,
            cal_dayEnd := 1501603199999,
            systemPeriod := Some \<lparr>pstart = 1501551000000, pend = 1501574400000\<rparr>,
            systemPeriods := [], startTimeHandler := Some 0, endTimeHandler := Some (Suc 0),
            marketOpenTimeHandler := Some (Suc (Suc 0)),
            marketCloseTimeHandler := Some (Suc (Suc (Suc 0))),
            timeInfoHandler := Some (Suc (Suc (Suc (Suc 0))))\<rparr>],
      timers =
        [0 \<mapsto> \<lparr>callback = SystemTimeStart ''trade'' 1501551000000, delay = 11000000\<rparr>,
         Suc 0 \<mapsto> \<lparr>callback = SystemTimeEnd ''trade'' 1501574400000, delay = 34400000\<rparr>,
         Suc (Suc 0) \<mapsto> \<lparr>callback = MarketOpen ''trade'', delay = 11000000\<rparr>,
         Suc (Suc (Suc 0)) \<mapsto> \<lparr>callback = MarketClose ''trade'', delay = 34400000\<rparr>,
         Suc (Suc (Suc (Suc 0))) \<mapsto> \<lparr>callback = AfterMarketClose ''trade'', delay = 39500000\<rparr>],
      nextHandle = Suc (Suc (Suc (Suc (Suc 0)))),
      emitted =
        [TradeDateChange ''trade'' 17379 (Some 17378) (Some 17380),
         SystemPeriodChange ''trade'' \<lparr>pstart = 1501551000000, pend = 1501574400000\<rparr> []],
      clock = 1501540000000\<rparr>))"
  unfolding start_registers
  apply (subst setTimeInfo.simps)
  apply (simp add: registered_simps realTimeInfo_None today_def TradeCalendar_timestamp_def
      cn_simps DAY_def)
  apply (simp add: realTimeInfo_cn days_def)
  apply (simp add: realAfterMarketEnd_def cn_after_market_end DAY_def TradeCalendar_realStamp_def)
  apply (simp add: changeTradeDate_def cn_simps realTimeInfo_cn days_def registered_simps)
  apply (simp add: manager_defs cn_simps test_config_ms DAY_def registered_def new_manager_def)
  done

lemma started_eq:
  "started =
     \<lparr>calendars =
        [''trade'' \<mapsto>
         cn\<lparr>cal_preTradeDate := Some 17378, cal_nextTradeDate := Some 17380,
            cal_tradeDate := Some 17379, cal_dayStart := 1501516800000,
            cal_dayEnd := 1501603199999,
            systemPeriod := Some \<lparr>pstart = 1501551000000, pend = 1501574400000\<rparr>,
            systemPeriods := [], startTimeHandler := Some 0, endTimeHandler := Some (Suc 0),
            marketOpenTimeHandler := Some (Suc (Suc 0)),
            marketCloseTimeHandler := Some (Suc (Suc (Suc 0))),
            timeInfoHandler := Some (Suc (Suc (Suc (Suc 0))))\<rparr>],
      timers =
        [0 \<mapsto> \<lparr>callback = SystemTimeStart ''trade'' 1501551000000, delay = 11000000\<rparr>,
         Suc 0 \<mapsto> \<lparr>callback = SystemTimeEnd ''trade'' 1501574400000, delay = 34400000\<rparr>,
         Suc (Suc 0) \<mapsto> \<lparr>callback = MarketOpen ''trade'', delay = 11000000\<rparr>,
         Suc (Suc (Suc 0)) \<mapsto> \<lparr>callback = MarketClose ''trade'', delay = 34400000\<rparr>,
         Suc (Suc (Suc (Suc 0))) \<mapsto> \<lparr>callback = AfterMarketClose ''trade'', delay = 39500000\<rparr>],
      nextHandle = Suc (Suc (Suc (Suc (Suc 0)))),
      emitted =
        [TradeDateChange ''trade'' 17379 (Some 17378) (Some 17380),
         SystemPeriodChange ''trade'' \<lparr>pstart = 1501551000000, pend = 1501574400000\<rparr> []],
      clock = 1501540000000\<rparr>"
  by (simp add: started_def start_before_open returned_world_def)

lemma start_returns_started:
  "start (new_manager 1501540000000) (Unnamed cn) = Some (Returned started)"
  by (simp add: started_eq start_before_open)

text \<open>
  C3 (fails on the code): after \<open>stop\<close> on a started calendar the terminal timer and the
  period timers are cancelled, but the market-open and market-close timers are still
  armed, and the market-close timer still emits its event when it fires.
\<close>

theorem stop_leaves_market_timers_armed:
  "start (new_manager 1501540000000) (Unnamed cn) = Some (Returned started)
   \<and> timers (stop started ''trade'') (Suc (Suc 0)) =
     Some \<lparr>callback = MarketOpen ''trade'', delay = 11000000\<rparr>
   \<and> timers (stop started ''trade'') (Suc (Suc (Suc 0))) =
     Some \<lparr>callback = MarketClose ''trade'', delay = 34400000\<rparr>
   \<and> timers (stop started ''trade'') 0 = None
   \<and> timers (stop started ''trade'') (Suc 0) = None
   \<and> timers (stop started ''trade'') (Suc (Suc (Suc (Suc 0)))) = None
   \<and> emitted (returned_world (fire (stop started ''trade'') (Suc (Suc (Suc 0))))) =
       emitted started @ [MarketCloseEv ''trade'' (Some 17379)]"
  by (simp add: start_returns_started)
     (simp add: started_eq stop_def clear_if_set_def clearTimeout_def fire_def emit_def
      returned_world_def)

lemma stop_unknown: "calendars w name = None \<Longrightarrow> stop w name = w"
  by (simp add: stop_def)

lemma stop_idempotent: "stop (stop w name) name = stop w name"
  by (simp add: stop_def clear_if_set_def clearTimeout_def split: option.splits)

lemma setTimeInfo_lookup_fails:
  assumes "calendars w name = Some calendar"
    and "realTimeInfo calendar (clock w) anchor None = Some (Inl err)"
  shows "setTimeInfo w name anchor retry = Some (catch_error w name anchor retry err)"
  by (subst setTimeInfo.simps) (simp add: assms)

lemma realTimeInfo_source_down:
  assumes "finder c = source_down" and "0 < days d" and "days d < 6"
  shows "realTimeInfo c now (Some d) dir = Some (Inl (SourceError ''down''))"
proof -
  have "timeInfo_loop c (norm_direction dir) d = Some (Inl (SourceError ''down''))"
    using assms(2,3)
    by (rule timeInfo_loop_source_error) (simp add: findHolidays_def assms(1) source_down_def)
  then show ?thesis by (simp add: realTimeInfo_def timeInfo_def)
qed

lemma fire_outage:
  "fire outage (Suc (Suc (Suc (Suc 0)))) =
     Some (Threw (SourceError ''down'')
       (emit (clearTimeout outage (Suc (Suc (Suc (Suc 0))))) (AfterMarketCloseEv ''trade'' (Some 17379))))"
proof -
  let ?w = "emit (clearTimeout outage (Suc (Suc (Suc (Suc 0))))) (AfterMarketCloseEv ''trade'' (Some 17379))"
  obtain c where c: "calendars ?w ''trade'' = Some c" and f: "finder c = source_down"
    by (simp add: outage_def started_eq reload_finder_def modify_def emit_def clearTimeout_def)
  have "setTimeInfo ?w ''trade'' (Some (17379 + 1)) False
      = Some (catch_error ?w ''trade'' (Some (17379 + 1)) False (SourceError ''down''))"
    using c by (rule setTimeInfo_lookup_fails)
      (simp add: realTimeInfo_source_down [OF f] days_def)
  then show ?thesis
    by (simp add: fire_def outage_def started_eq reload_finder_def modify_def emit_def
        clearTimeout_def catch_error_def)
qed

text \<open>
  C2 (fails on the code): the after-market-close timer fires while the holiday source is
  down.  Its callback calls setTimeInfo without the retry argument, so the error is
  thrown out of the callback: no retry timer is armed and no timer is left for the
  calendar's next day.
\<close>

theorem after_market_close_failure_is_not_retried:
  "start (new_manager 1501540000000) (Unnamed cn) = Some (Returned started)
   \<and> timers outage (Suc (Suc (Suc (Suc 0)))) =
     Some \<lparr>callback = AfterMarketClose ''trade'', delay = 39500000\<rparr>
   \<and> thrown (fire outage (Suc (Suc (Suc (Suc 0))))) = Some (SourceError ''down'')
   \<and> nextHandle (returned_world (fire outage (Suc (Suc (Suc (Suc 0)))))) = nextHandle outage
   \<and> map_option timeHandler
        (calendars (returned_world (fire outage (Suc (Suc (Suc (Suc 0)))))) ''trade'') = Some None
   \<and> timers (returned_world (fire outage (Suc (Suc (Suc (Suc 0)))))) =
        (timers outage)(Suc (Suc (Suc (Suc 0))) := None)"
  by (simp add: start_returns_started fire_outage thrown_def returned_world_def emit_def
        clearTimeout_def)
     (simp add: outage_def started_eq reload_finder_def modify_def cn_simps)

lemma start_failure_propagates:
  assumes "calendars w (cname c) = None"
    and "realTimeInfo c (clock w) None None = Some (Inl err)"
  shows "start w (Unnamed c) = Some (Threw err (w\<lparr>calendars := (calendars w)(cname c \<mapsto> c)\<rparr>))"
  using assms
  by (simp add: start_def setTimeInfo_lookup_fails [where calendar = c] catch_error_def)

lemma retry_flag_arms_retry_timer:
  assumes "calendars w name = Some calendar"
    and "realTimeInfo calendar (clock w) anchor None = Some (Inl err)"
    and "setTimeInfo w name anchor True = Some (Returned w')"
  shows "timers w' (nextHandle w) = Some \<lparr>callback = Retry name anchor True, delay = 10000\<rparr>
       \<and> map_option timeHandler (calendars w' name) = Some (Some (nextHandle w))
       \<and> map_option timeInfoHandler (calendars w' name) = Some None
       \<and> (\<forall>h. timeInfoHandler calendar = Some h \<longrightarrow> h \<noteq> nextHandle w \<longrightarrow> timers w' h = None)"
  using assms(3) unfolding setTimeInfo_lookup_fails [OF assms(1,2)]
  by (auto simp: catch_error_def assms(1) modify_def setTimeout_def clearTimeout_def Let_def
      split: option.splits)

lemma stop_leaves_retry_timer_armed:
  assumes "calendars w name = Some calendar"
    and "realTimeInfo calendar (clock w) anchor None = Some (Inl err)"
    and "setTimeInfo w name anchor True = Some (Returned w')"
    and "timeInfoHandler calendar = None"
    and "startTimeHandler calendar \<noteq> Some (nextHandle w)"
    and "endTimeHandler calendar \<noteq> Some (nextHandle w)"
  shows "timers (stop w' name) (nextHandle w) =
           Some \<lparr>callback = Retry name anchor True, delay = 10000\<rparr>"
  using assms(3-6) unfolding setTimeInfo_lookup_fails [OF assms(1,2)]
  by (auto simp: catch_error_def assms(1) modify_def setTimeout_def clearTimeout_def Let_def
      stop_def clear_if_set_def split: option.splits)

lemma changeTradeDate_frame:
  assumes "changeTradeDate w name calendar info = Some (Inr w1)"
    and "calendars w name = Some calendar"
  shows "timers w1 = timers w \<and> nextHandle w1 = nextHandle w \<and> clock w1 = clock w
       \<and> (\<exists>c1. calendars w1 name = Some c1)"
  using assms
  by (auto simp: changeTradeDate_def modify_def emit_def Let_def
      split: if_splits option.splits sum.splits)

lemma market_open_periods:
  assumes "marketOpen_of info = Some mo" and "marketClose_of info = Some mc"
  shows "\<exists>p ps. timePeriods info = p # ps"
  using assms by (cases "timePeriods info") (simp_all add: marketOpen_of_def)

text \<open>The world before the market timers are armed (lines 105-109).\<close>

lemma before_market_timers:
  assumes "calendars w1 name = Some c1" and "timePeriods info = p # ps"
    and "w3 = (let wa = modify w1 name (\<lambda>c. c\<lparr>systemPeriods := timePeriods info\<rparr>);
                      wb = changeSystemPeriod wa name
                  in clear_if_set wb (case calendars wb name of None \<Rightarrow> None | Some c \<Rightarrow> timeInfoHandler c))"
  shows "(\<exists>c3. calendars w3 name = Some c3) \<and> clock w3 = clock w1
       \<and> (\<forall>h t. timers w3 h = Some t \<longrightarrow> callback t = MarketOpen name \<longrightarrow> timers w1 h = Some t)"
  using assms
  by (auto simp: modify_def changeSystemPeriod_def emit_def clear_if_set_def clearTimeout_def
      realTimeoutAt_def setTimeout_def Let_def split: option.splits if_splits)

lemma arm_market_and_terminal:
  assumes "calendars w3 name = Some c3" and "mo \<noteq> 0" and "mc \<noteq> 0"
    and "w' = armAfterMarketClose (armMarketTimers w3 name now (Some mo) (Some mc)) name calendar info"
  shows "(\<exists>h. map_option marketCloseTimeHandler (calendars w' name) = Some (Some h)
            \<and> timers w' h = Some \<lparr>callback = MarketClose name, delay = mc - clock w3\<rparr>)
       \<and> (now < mc \<longrightarrow>
            (\<exists>h. map_option marketOpenTimeHandler (calendars w' name) = Some (Some h)
               \<and> timers w' h = Some \<lparr>callback = MarketOpen name, delay = mo - clock w3\<rparr>))
       \<and> (\<not> now < mc \<longrightarrow>
            (\<forall>h t. timers w' h = Some t \<longrightarrow> callback t = MarketOpen name \<longrightarrow> timers w3 h = Some t))"
  using assms
  by (auto simp: armAfterMarketClose_def armMarketTimers_def truthy_def setTimeoutAt_def
      setTimeout_def modify_def TradeCalendar_timestamp_def Let_def split: if_splits)

lemma fire_market_open:
  assumes "timers w h = Some t" and "callback t = MarketOpen name"
  shows "fire w h = Some (Returned (emit (clearTimeout w h)
           (MarketOpenEv name (Option.bind (calendars w name) cal_tradeDate))))"
  using assms by (simp add: fire_def clearTimeout_def split: option.splits)

lemma fire_market_close:
  assumes "timers w h = Some t" and "callback t = MarketClose name"
  shows "fire w h = Some (Returned (emit (clearTimeout w h)
           (MarketCloseEv name (Option.bind (calendars w name) cal_tradeDate))))"
  using assms by (simp add: fire_def clearTimeout_def split: option.splits)

text \<open>
  C4 (amended): in a successful pass whose first period start and last period end are
  non-zero, a market-close timer is always armed, and a market-open timer is armed
  exactly when the clock is before the last period's end, also when the first period
  has already started; fired, each emits its event.
\<close>

theorem market_timers_of_a_pass:
  assumes "calendars w name = Some calendar"
    and "realTimeInfo calendar (clock w) anchor None = Some (Inr info)"
    and "\<not> clock w > realAfterMarketEnd calendar (clock w) (tradeDate info)"
    and "changeTradeDate w name calendar info = Some (Inr w1)"
    and "marketOpen_of info = Some mo" and "marketClose_of info = Some mc"
    and "mo \<noteq> 0" and "mc \<noteq> 0"
    and "w' = armTimers w1 name calendar info (clock w)"
  shows "setTimeInfo w name anchor retry = Some (Returned w')
       \<and> (\<exists>h. map_option marketCloseTimeHandler (calendars w' name) = Some (Some h)
              \<and> timers w' h = Some \<lparr>callback = MarketClose name, delay = mc - clock w\<rparr>)
       \<and> (clock w < mc \<longrightarrow>
            (\<exists>h. map_option marketOpenTimeHandler (calendars w' name) = Some (Some h)
               \<and> timers w' h = Some \<lparr>callback = MarketOpen name, delay = mo - clock w\<rparr>))
       \<and> (\<not> clock w < mc \<longrightarrow>
            (\<forall>h t. timers w' h = Some t \<longrightarrow> callback t = MarketOpen name \<longrightarrow> timers w h = Some t))
       \<and> (\<forall>h t. timers w' h = Some t \<longrightarrow> callback t = MarketOpen name \<longrightarrow>
            emitted (returned_world (fire w' h)) =
              emitted w' @ [MarketOpenEv name (Option.bind (calendars w' name) cal_tradeDate)])
       \<and> (\<forall>h t. timers w' h = Some t \<longrightarrow> callback t = MarketClose name \<longrightarrow>
            emitted (returned_world (fire w' h)) =
              emitted w' @ [MarketCloseEv name (Option.bind (calendars w' name) cal_tradeDate)])"
proof -
  have run: "setTimeInfo w name anchor retry = Some (Returned w')"
    by (subst setTimeInfo.simps) (simp add: assms)
  from changeTradeDate_frame [OF assms(4,1)] obtain c1 where
    fr: "timers w1 = timers w" "nextHandle w1 = nextHandle w" "clock w1 = clock w"
    and c1: "calendars w1 name = Some c1"
    by blast
  from market_open_periods [OF assms(5,6)] obtain p ps where ps: "timePeriods info = p # ps"
    by blast
  define w3 where "w3 = (let wa = modify w1 name (\<lambda>c. c\<lparr>systemPeriods := timePeriods info\<rparr>);
                      wb = changeSystemPeriod wa name
                  in clear_if_set wb (case calendars wb name of None \<Rightarrow> None | Some c \<Rightarrow> timeInfoHandler c))"
  from before_market_timers [OF c1 ps w3_def] obtain c3 where
    c3: "calendars w3 name = Some c3" and ck: "clock w3 = clock w1"
    and old: "\<forall>h t. timers w3 h = Some t \<longrightarrow> callback t = MarketOpen name \<longrightarrow> timers w1 h = Some t"
    by blast
  have w': "w' = armAfterMarketClose (armMarketTimers w3 name (clock w) (Some mo) (Some mc)) name calendar info"
    by (simp add: assms(5,6,9) armTimers_def w3_def Let_def)
  note arm = arm_market_and_terminal [OF c3 assms(7,8) w']
  have fo: "\<forall>h t. timers w' h = Some t \<longrightarrow> callback t = MarketOpen name \<longrightarrow>
            emitted (returned_world (fire w' h)) =
              emitted w' @ [MarketOpenEv name (Option.bind (calendars w' name) cal_tradeDate)]"
    by (auto simp: fire_market_open returned_world_def emit_def clearTimeout_def)
  have fc: "\<forall>h t. timers w' h = Some t \<longrightarrow> callback t = MarketClose name \<longrightarrow>
            emitted (returned_world (fire w' h)) =
              emitted w' @ [MarketCloseEv name (Option.bind (calendars w' name) cal_tradeDate)]"
    by (auto simp: fire_market_close returned_world_def emit_def clearTimeout_def)
  from run arm old fo fc show ?thesis
    unfolding ck fr by blast
qed

lemma midday_eq:
  "start (new_manager 1501560000000) (Unnamed cn) =
   Some (Returned
     \<lparr>calendars =
        [''trade'' \<mapsto>
         cn\<lparr>cal_preTradeDate := Some 17378, cal_nextTradeDate := Some 17380,
            cal_tradeDate := Some 17379, cal_dayStart := 1501516800000,
            cal_dayEnd := 1501603199999,
            systemPeriod := Some \<lparr>pstart = 1501551000000, pend = 1501574400000\<rparr>,
            systemPeriods := [], startTimeHandler := Some 0, endTimeHandler := Some (Suc 0),
            marketOpenTimeHandler := Some (Suc (Suc 0)),
            marketCloseTimeHandler := Some (Suc (Suc (Suc 0))),
            timeInfoHandler := Some (Suc (Suc (Suc (Suc 0))))\<rparr>],
      timers =
        [0 \<mapsto> \<lparr>callback = SystemTimeStart ''trade'' 1501551000000, delay = - 9000000\<rparr>,
         Suc 0 \<mapsto> \<lparr>callback = SystemTimeEnd ''trade'' 1501574400000, delay = 14400000\<rparr>,
         Suc (Suc 0) \<mapsto> \<lparr>callback = MarketOpen ''trade'', delay = - 9000000\<rparr>,
         Suc (Suc (Suc 0)) \<mapsto> \<lparr>callback = MarketClose ''trade'', delay = 14400000\<rparr>,
         Suc (Suc (Suc (Suc 0))) \<mapsto> \<lparr>callback = AfterMarketClose ''trade'', delay = 19500000\<rparr>],
      nextHandle = Suc (Suc (Suc (Suc (Suc 0)))),
      emitted =
        [TradeDateChange ''trade'' 17379 (Some 17378) (Some 17380),
         SystemPeriodChange ''trade'' \<lparr>pstart = 1501551000000, pend = 1501574400000\<rparr> []],
      clock = 1501560000000\<rparr>)"
  unfolding start_registers
  apply (subst setTimeInfo.simps)
  apply (simp add: registered_simps realTimeInfo_None today_def TradeCalendar_timestamp_def
      cn_simps DAY_def)
  apply (simp add: realTimeInfo_cn days_def)
  apply (simp add: realAfterMarketEnd_def cn_after_market_end DAY_def TradeCalendar_realStamp_def)
  apply (simp add: changeTradeDate_def cn_simps realTimeInfo_cn days_def registered_simps)
  apply (simp add: manager_defs cn_simps test_config_ms DAY_def registered_def new_manager_def)
  done

theorem market_open_timer_armed_after_open:
  "realTimeInfo cn 1501560000000 None None =
     Some (Inr \<lparr>tradeDate = 17379,
                timePeriods = [\<lparr>pstart = 1501551000000, pend = 1501574400000\<rparr>],
                dayStart = 1501516800000, dayEnd = 1501603199999\<rparr>)
   \<and> (1501551000000 :: int) \<le> clock (new_manager 1501560000000)
   \<and> thrown (start (new_manager 1501560000000) (Unnamed cn)) = None
   \<and> timers (new_manager 1501560000000) (Suc (Suc 0)) = None
   \<and> timers (returned_world (start (new_manager 1501560000000) (Unnamed cn))) (Suc (Suc 0)) =
       Some \<lparr>callback = MarketOpen ''trade'', delay = - 9000000\<rparr>"
  by (simp add: midday_eq thrown_def returned_world_def)
     (simp add: new_manager_def realTimeInfo_None today_def TradeCalendar_timestamp_def cn_simps
        DAY_def realTimeInfo_cn days_def)

theorem market_timers_of_a_pass_witness:
  "(\<exists>h. timers (returned_world (setTimeInfo (registered 1501560000000) ''trade'' None False)) h =
       Some \<lparr>callback = MarketOpen ''trade'', delay = 1501551000000 - 1501560000000\<rparr>)
   \<and> (\<exists>h. timers (returned_world (setTimeInfo (registered 1501560000000) ''trade'' None False)) h =
       Some \<lparr>callback = MarketClose ''trade'', delay = 1501574400000 - 1501560000000\<rparr>)
   \<and> (\<exists>h. timers (returned_world (setTimeInfo (registered 1501576200000) ''trade'' None False)) h =
       Some \<lparr>callback = MarketClose ''trade'', delay = 1501574400000 - 1501576200000\<rparr>)
   \<and> \<not> (\<exists>h t. timers (returned_world (setTimeInfo (registered 1501576200000) ''trade'' None False)) h = Some t
            \<and> callback t = MarketOpen ''trade'')"
proof -
  let ?info = "\<lparr>tradeDate = 17379,
                timePeriods = [\<lparr>pstart = 1501551000000, pend = 1501574400000\<rparr>],
                dayStart = 1501516800000, dayEnd = 1501603199999\<rparr>"
  have h5: "marketOpen_of ?info = Some 1501551000000" by (simp add: marketOpen_of_def)
  have h6: "marketClose_of ?info = Some 1501574400000" by (simp add: marketClose_of_def)
  have inside: "(\<exists>h. timers (returned_world (setTimeInfo (registered 1501560000000) ''trade'' None False)) h =
       Some \<lparr>callback = MarketOpen ''trade'', delay = 1501551000000 - 1501560000000\<rparr>)
   \<and> (\<exists>h. timers (returned_world (setTimeInfo (registered 1501560000000) ''trade'' None False)) h =
       Some \<lparr>callback = MarketClose ''trade'', delay = 1501574400000 - 1501560000000\<rparr>)"
  proof -
    let ?w = "registered 1501560000000"
    have h1: "calendars ?w ''trade'' = Some cn" by (simp add: registered_simps)
    have h2: "realTimeInfo cn (clock ?w) None None = Some (Inr ?info)"
      by (simp add: registered_simps realTimeInfo_None today_def TradeCalendar_timestamp_def cn_simps
          DAY_def realTimeInfo_cn days_def)
    have h3: "\<not> clock ?w > realAfterMarketEnd cn (clock ?w) (tradeDate ?info)"
      by (simp add: registered_simps realAfterMarketEnd_def cn_after_market_end DAY_def
          TradeCalendar_realStamp_def)
    obtain w1 where h4: "changeTradeDate ?w ''trade'' cn ?info = Some (Inr w1)"
      by (simp add: changeTradeDate_def cn_simps realTimeInfo_cn days_def registered_simps)
    from market_timers_of_a_pass [OF h1 h2 h3 h4 h5 h6 _ _ refl, of False]
    show ?thesis by (auto simp: returned_world_def registered_simps)
  qed
  have after: "(\<exists>h. timers (returned_world (setTimeInfo (registered 1501576200000) ''trade'' None False)) h =
       Some \<lparr>callback = MarketClose ''trade'', delay = 1501574400000 - 1501576200000\<rparr>)
   \<and> \<not> (\<exists>h t. timers (returned_world (setTimeInfo (registered 1501576200000) ''trade'' None False)) h = Some t
            \<and> callback t = MarketOpen ''trade'')"
  proof -
    let ?w = "registered 1501576200000"
    have h1: "calendars ?w ''trade'' = Some cn" by (simp add: registered_simps)
    have h2: "realTimeInfo cn (clock ?w) None None = Some (Inr ?info)"
      by (simp add: registered_simps realTimeInfo_None today_def TradeCalendar_timestamp_def cn_simps
          DAY_def realTimeInfo_cn days_def)
    have h3: "\<not> clock ?w > realAfterMarketEnd cn (clock ?w) (tradeDate ?info)"
      by (simp add: registered_simps realAfterMarketEnd_def cn_after_market_end DAY_def
          TradeCalendar_realStamp_def)
    obtain w1 where h4: "changeTradeDate ?w ''trade'' cn ?info = Some (Inr w1)"
      by (simp add: changeTradeDate_def cn_simps realTimeInfo_cn days_def registered_simps)
    from market_timers_of_a_pass [OF h1 h2 h3 h4 h5 h6 _ _ refl, of False]
    show ?thesis by (auto simp: returned_world_def registered_simps)
  qed
  from inside after show ?thesis by blast
qed

end
